theory Spec2Isabelle
  imports Complex_Main "HOL-Library.Sublist"
begin

section \<open>Match predictions: scoring, lifecycle, counters and analytics\<close>

text \<open>
  A shallow embedding of the prediction tracker: the scoring function of
  \<^verbatim>\<open>src/models/prediction.py\<close>, the match and prediction services and repositories
  of \<^verbatim>\<open>src/services\<close> and \<^verbatim>\<open>src/repositories\<close>, and the analytics of
  \<^verbatim>\<open>src/services/analytics_service.py\<close> and \<^verbatim>\<open>src/models/analytics.py\<close>.
  Python integers are \<open>int\<close>, document identifiers (ObjectId) are \<open>nat\<close>, points in time
  (datetime) are \<open>int\<close>, an optional field is an \<open>option\<close>, and a raised exception is the
  \<open>Inl\<close> of a sum.
\<close>

type_synonym oid = nat
type_synonym datetime = int

subsection \<open>Formatting integers, as the f-strings of the source do\<close>

definition digit_char :: "nat \<Rightarrow> char" where
  "digit_char d = ''0123456789'' ! d"

function str_nat :: "nat \<Rightarrow> string" where
  "str_nat n = (if n < 10 then [digit_char n] else str_nat (n div 10) @ [digit_char (n mod 10)])"
  by pat_completeness auto
termination
  by (relation "measure (\<lambda>n. n)") auto

definition str_int :: "int \<Rightarrow> string" where
  "str_int i = (if i < 0 then CHR ''-'' # str_nat (nat (- i)) else str_nat (nat i))"

subsection \<open>Predictions and the scoring rule (models/prediction.py)\<close>

text \<open>\<^verbatim>\<open>PredictionPoints\<close>: an IntEnum, so each member is the integer it names.\<close>

definition EXACT_SCORE :: int where "EXACT_SCORE = 3"
definition CORRECT_DIFFERENCE :: int where "CORRECT_DIFFERENCE = 2"
definition CORRECT_OUTCOME :: int where "CORRECT_OUTCOME = 1"
definition INCORRECT :: int where "INCORRECT = 0"

text \<open>\<^verbatim>\<open>PredictionOutcome\<close>: three class attributes holding plain strings.\<close>

definition HOME_WIN :: string where "HOME_WIN = ''home_win''"
definition AWAY_WIN :: string where "AWAY_WIN = ''away_win''"
definition DRAW :: string where "DRAW = ''draw''"

record prediction =
  pred_id :: oid
  user_id :: oid
  match_id :: oid
  predicted_home_score :: int
  predicted_away_score :: int
  is_scored :: bool
  points :: "int option"
  points_breakdown :: "string option"
  actual_home_score :: "int option"
  actual_away_score :: "int option"
  created_at :: datetime
  updated_at :: "datetime option"
  scored_at :: "datetime option"

definition predicted_outcome :: "prediction \<Rightarrow> string" where
  "predicted_outcome p =
     (if predicted_home_score p > predicted_away_score p then HOME_WIN
      else if predicted_home_score p < predicted_away_score p then AWAY_WIN
      else DRAW)"

definition predicted_goal_difference :: "prediction \<Rightarrow> int" where
  "predicted_goal_difference p = predicted_home_score p - predicted_away_score p"

definition score_pair :: "int \<Rightarrow> int \<Rightarrow> string" where
  "score_pair h a = str_int h @ ''-'' @ str_int a"

definition calculate_points :: "prediction \<Rightarrow> int \<Rightarrow> int \<Rightarrow> int \<times> string" where
  "calculate_points p actual_home actual_away =
     (let actual_outcome =
            (if actual_home > actual_away then HOME_WIN
             else if actual_home < actual_away then AWAY_WIN
             else DRAW);
          actual_diff = actual_home - actual_away
      in
        if predicted_home_score p = actual_home \<and> predicted_away_score p = actual_away then
          (EXACT_SCORE,
           ''Exact score! Predicted '' @ score_pair (predicted_home_score p) (predicted_away_score p)
             @ '', actual '' @ score_pair actual_home actual_away)
        else if predicted_outcome p = actual_outcome
                \<and> predicted_goal_difference p = actual_diff then
          (CORRECT_DIFFERENCE,
           ''Correct outcome and goal difference! Predicted ''
             @ score_pair (predicted_home_score p) (predicted_away_score p)
             @ '' (diff: '' @ str_int (predicted_goal_difference p) @ ''), actual ''
             @ score_pair actual_home actual_away
             @ '' (diff: '' @ str_int actual_diff @ '')'')
        else if predicted_outcome p = actual_outcome then
          (CORRECT_OUTCOME,
           ''Correct outcome ('' @ actual_outcome @ '')! Predicted ''
             @ score_pair (predicted_home_score p) (predicted_away_score p)
             @ '', actual '' @ score_pair actual_home actual_away)
        else
          (INCORRECT,
           ''Incorrect. Predicted '' @ score_pair (predicted_home_score p) (predicted_away_score p)
             @ '' ('' @ predicted_outcome p @ ''), actual ''
             @ score_pair actual_home actual_away @ '' ('' @ actual_outcome @ '')''))"

text \<open>
  The scoring rule as the specification words it: an outcome category per score pair, and
  a precedence of four rules.
\<close>

datatype outcome_category = HomeWin | AwayWin | DrawResult

definition category :: "int \<Rightarrow> int \<Rightarrow> outcome_category" where
  "category home away = (if home > away then HomeWin else if home < away then AwayWin else DrawResult)"

definition spec_points :: "int \<Rightarrow> int \<Rightarrow> int \<Rightarrow> int \<Rightarrow> int" where
  "spec_points ph pa ah aa =
     (if (ph, pa) = (ah, aa) then 3
      else if category ph pa = category ah aa \<and> ph - pa = ah - aa then 2
      else if category ph pa = category ah aa then 1
      else 0)"

definition valid_score :: "int \<Rightarrow> bool" where
  "valid_score v = (0 \<le> v \<and> v \<le> 99)"

subsection \<open>Streaks (services/analytics_service.py)\<close>

text \<open>
  \<^verbatim>\<open>_calculate_streaks\<close>: the first loop keeps the four counters
  (best_streak, worst_streak, temp_streak, temp_losing); \<open>streak_step\<close> is its body.
  The second loop walks the reversed list and leaves at the first result that is not 1.
\<close>

fun streak_step :: "int \<Rightarrow> int \<times> int \<times> int \<times> int \<Rightarrow> int \<times> int \<times> int \<times> int" where
  "streak_step r (best_streak, worst_streak, temp_streak, temp_losing) =
     (if r = 1 then (max best_streak (temp_streak + 1), worst_streak, temp_streak + 1, 0)
      else (best_streak, max worst_streak (temp_losing + 1), 0, temp_losing + 1))"

fun streak_loop :: "int list \<Rightarrow> int \<times> int \<times> int \<times> int \<Rightarrow> int \<times> int \<times> int \<times> int" where
  "streak_loop [] s = s"
| "streak_loop (r # rs) s = streak_loop rs (streak_step r s)"

fun current_loop :: "int list \<Rightarrow> int \<Rightarrow> int" where
  "current_loop [] current_streak = current_streak"
| "current_loop (r # rs) current_streak =
     (if r = 1 then current_loop rs (current_streak + 1) else current_streak)"

definition calculate_streaks :: "int list \<Rightarrow> int \<times> int \<times> int" where
  "calculate_streaks results =
     (if results = [] then (0, 0, 0)
      else
        (case streak_loop results (0, 0, 0, 0) of
           (best_streak, worst_streak, temp_streak, temp_losing) \<Rightarrow>
             (current_loop (rev results) 0, best_streak, worst_streak)))"

text \<open>
  \<^verbatim>\<open>get_user_stats\<close> feeds it: the "streaks" facet pushes, in scored_at order, 1 for a
  prediction with points > 0 and 0 otherwise, and the streaks stay (0, 0, 0) when the facet
  holds no results. \<open>pts\<close> is the list of points of the user's scored predictions in that
  order.
\<close>

definition streak_results :: "int list \<Rightarrow> int list" where
  "streak_results pts = map (\<lambda>p. if p > 0 then 1 else 0) pts"

definition user_streaks :: "int list \<Rightarrow> int \<times> int \<times> int" where
  "user_streaks pts =
     (if streak_results pts \<noteq> [] then calculate_streaks (streak_results pts) else (0, 0, 0))"

text \<open>
  The specification's words: a run is a contiguous stretch of the sequence whose elements
  all satisfy \<open>P\<close>; the longest run is the greatest length among them, the trailing run the
  greatest length among those that end the sequence.
\<close>

definition longest_run :: "('a \<Rightarrow> bool) \<Rightarrow> 'a list \<Rightarrow> nat" where
  "longest_run P xs = Max (set (map length (filter (list_all P) (sublists xs))))"

definition trailing_run :: "('a \<Rightarrow> bool) \<Rightarrow> 'a list \<Rightarrow> nat" where
  "trailing_run P xs = Max (set (map length (filter (list_all P) (suffixes xs))))"

subsection \<open>Exceptions\<close>

text \<open>
  The exceptions the modelled code can raise. \<^verbatim>\<open>MatchNotFoundError\<close>,
  \<^verbatim>\<open>InvalidMatchStateError\<close> and \<^verbatim>\<open>PredictionsLockedError\<close> are subclasses of
  \<^verbatim>\<open>MatchServiceError\<close>; \<^verbatim>\<open>PredictionNotAllowedError\<close>, \<^verbatim>\<open>PredictionNotFoundError\<close> and
  \<^verbatim>\<open>DuplicatePredictionError\<close> are subclasses of \<^verbatim>\<open>PredictionServiceError\<close>.
  \<open>ValidationError\<close> is pydantic's, \<open>DuplicateKeyError\<close> and \<open>OperationFailure\<close> are the
  database driver's, \<open>ZeroDivisionError\<close>, \<open>OverflowError\<close> and \<open>AttributeError\<close> are
  Python's.
\<close>

datatype error =
    ZeroDivisionError
  | OverflowError
  | AttributeError
  | ValidationError
  | DuplicateKeyError
  | OperationFailure
  | MatchServiceError
  | MatchNotFoundError
  | InvalidMatchStateError
  | PredictionsLockedError
  | PredictionServiceError
  | PredictionNotAllowedError
  | PredictionNotFoundError
  | DuplicatePredictionError

definition is_match_service_error :: "error \<Rightarrow> bool" where
  "is_match_service_error e =
     (e = MatchServiceError \<or> e = MatchNotFoundError \<or> e = InvalidMatchStateError
      \<or> e = PredictionsLockedError)"

subsection \<open>Rounding to the nearest integer, ties to even\<close>


subsection \<open>Documents and the database\<close>

text \<open>
  The three collections. A collection keyed by \<^verbatim>\<open>_id\<close> and only ever read by it is a map;
  the predictions are a list in insertion order, because the scoring pass iterates over
  them and because several documents can name the same user and match.

  A stored document has the fields and the field types of its record; what else its
  pydantic model checks when the document is read (the \<^verbatim>\<open>Field\<close> constraints and the
  validator functions of \<^verbatim>\<open>Match\<close> and of \<^verbatim>\<open>Prediction\<close>) is checked by the read. An
  identifier passed to an operation arrives as an ObjectId (the services convert a
  string first).
\<close>

datatype MatchStatus = PENDING | LIVE | FINISHED | CANCELLED | POSTPONED

datatype Sport = FOOTBALL | HOCKEY | BASKETBALL | TENNIS

record match =
  match_oid :: oid
  home_team :: string
  away_team :: string
  scheduled_at :: datetime
  sport :: Sport
  league :: "string option"
  season :: "string option"
  status :: MatchStatus
  home_score :: "int option"
  away_score :: "int option"
  started_at :: "datetime option"
  finished_at :: "datetime option"
  cancelled_at :: "datetime option"
  predictions_locked :: bool
  total_predictions :: int
  cancellation_reason :: "string option"
  match_created_at :: "datetime option"
  match_updated_at :: "datetime option"

record match_create =
  new_home_team :: string
  new_away_team :: string
  new_scheduled_at :: datetime
  new_sport :: Sport
  new_league :: "string option"
  new_season :: "string option"

record match_update =
  upd_home_team :: "string option"
  upd_away_team :: "string option"
  upd_scheduled_at :: "datetime option"
  upd_sport :: "Sport option"
  upd_league :: "string option"
  upd_season :: "string option"
  upd_status :: "MatchStatus option"
  upd_home_score :: "int option"
  upd_away_score :: "int option"
  upd_predictions_locked :: "bool option"

record match_result =
  result_home_score :: int
  result_away_score :: int
  result_finished_at :: "datetime option"

record user =
  user_oid :: oid
  username :: string
  is_active :: bool
  user_total_predictions :: int
  user_total_points :: int
  user_updated_at :: "datetime option"

text \<open>
  A stored prediction document. \<^verbatim>\<open>PyObjectId\<close> (validators/custom_types.py) serialises
  to a string, so the document that \<^verbatim>\<open>model_dump\<close> produces holds \<^verbatim>\<open>_id\<close>, \<^verbatim>\<open>user_id\<close>
  and \<^verbatim>\<open>match_id\<close> as strings, while a document written with ObjectIds (by
  \<^verbatim>\<open>to_document\<close>, or by hand) holds them as ObjectIds; \<open>ids_as_str\<close> says which of the
  two a document is. A query that compares a field with an ObjectId matches only a
  document that holds ObjectIds, and a string and an ObjectId are different values for
  a unique index and for \<^verbatim>\<open>$group\<close>. \<^verbatim>\<open>Prediction.model_validate\<close> accepts both forms
  and yields ObjectIds.
\<close>

record prediction_doc = prediction +
  ids_as_str :: bool

text \<open>
  \<open>user_match_unique_index\<close>: whether \<^verbatim>\<open>ensure_indexes\<close> (db/indexes.py) has created
  the unique index \<^verbatim>\<open>idx_predictions_user_match_unique\<close> on (user_id, match_id).
\<close>

record database =
  matches :: "oid \<rightharpoonup> match"
  predictions :: "prediction_doc list"
  users :: "oid \<rightharpoonup> user"
  user_match_unique_index :: bool

subsection \<open>Reading a match (models/match.py, repositories/base.py)\<close>

text \<open>
  \<^verbatim>\<open>str.strip\<close> and \<^verbatim>\<open>str.lower\<close>, and the stripping that pydantic does under
  \<^verbatim>\<open>str_strip_whitespace\<close> (\<open>trim\<close>). A character is its code point; the text of the
  model stays within the first 256 code points, where the white space of \<^verbatim>\<open>str.strip\<close>
  is 9 to 13, 28 to 32, 133 and 160, the white space of pydantic is 9 to 13, 32, 133 and
  160, and the letters with a lower-case form are 65 to 90 and 192 to 222 without 215,
  the lower-case form being 32 further on.
\<close>

definition is_space :: "char \<Rightarrow> bool" where
  "is_space c =
     (let n = of_char c :: nat
      in (9 \<le> n \<and> n \<le> 13) \<or> (28 \<le> n \<and> n \<le> 32) \<or> n = 133 \<or> n = 160)"

definition is_trim_space :: "char \<Rightarrow> bool" where
  "is_trim_space c =
     (let n = of_char c :: nat
      in (9 \<le> n \<and> n \<le> 13) \<or> n = 32 \<or> n = 133 \<or> n = 160)"

definition trim :: "string \<Rightarrow> string" where
  "trim s = rev (dropWhile is_trim_space (rev (dropWhile is_trim_space s)))"

definition lower_char :: "char \<Rightarrow> char" where
  "lower_char c =
     (let n = of_char c :: nat
      in if (65 \<le> n \<and> n \<le> 90) \<or> (192 \<le> n \<and> n \<le> 222 \<and> n \<noteq> 215)
         then (case c of Char b0 b1 b2 b3 b4 b5 b6 b7 \<Rightarrow> Char b0 b1 b2 b3 b4 True b6 b7)
         else c)"

definition strip :: "string \<Rightarrow> string" where
  "strip s = rev (dropWhile is_space (rev (dropWhile is_space s)))"

definition lower :: "string \<Rightarrow> string" where
  "lower s = map lower_char s"

text \<open>
  What runs whenever a document is turned into a \<^verbatim>\<open>Match\<close>, in this order: the fields
  (every string stripped, as the configuration of \<^verbatim>\<open>MongoBaseModel\<close> says; a team name
  of 1 to 100 characters, a league of at most 100, a season of at most 20, a score from
  0 to 99, a prediction count of at least 0) with the field validator
  \<^verbatim>\<open>normalize_team_name\<close> of both team names, then the model validators
  \<^verbatim>\<open>MatchBase.teams_must_be_different\<close> and \<^verbatim>\<open>Match.validate_status_consistency\<close>. The
  last raises on a finished match without scores and fills in timestamps and the lock
  of the object it returns (not of the stored document).
\<close>

definition normalize_team_name :: "string \<Rightarrow> string" where
  "normalize_team_name v = strip v"

definition match_fields :: "match \<Rightarrow> error + match" where
  "match_fields doc =
     (let h = trim (home_team doc); a = trim (away_team doc);
          l = map_option trim (league doc); s = map_option trim (season doc)
      in if length h < 1 \<or> 100 < length h \<or> length a < 1 \<or> 100 < length a
            \<or> (case l of Some x \<Rightarrow> 100 < length x | None \<Rightarrow> False)
            \<or> (case s of Some x \<Rightarrow> 20 < length x | None \<Rightarrow> False)
            \<or> (case home_score doc of Some v \<Rightarrow> v < 0 \<or> 99 < v | None \<Rightarrow> False)
            \<or> (case away_score doc of Some v \<Rightarrow> v < 0 \<or> 99 < v | None \<Rightarrow> False)
            \<or> total_predictions doc < 0
         then Inl ValidationError
         else Inr (doc\<lparr>home_team := normalize_team_name h, away_team := normalize_team_name a,
                       league := l, season := s\<rparr>))"

definition teams_must_be_different :: "match \<Rightarrow> error + match" where
  "teams_must_be_different m =
     (if lower (home_team m) = lower (away_team m) then Inl ValidationError else Inr m)"

definition validate_status_consistency :: "datetime \<Rightarrow> match \<Rightarrow> error + match" where
  "validate_status_consistency now m =
     (if status m = FINISHED \<and> (home_score m = None \<or> away_score m = None)
      then Inl ValidationError
      else
        (let m1 = (if status m = FINISHED \<and> finished_at m = None
                   then m\<lparr>finished_at := Some now\<rparr> else m);
             m2 = (if status m1 = CANCELLED \<and> cancelled_at m1 = None
                   then m1\<lparr>cancelled_at := Some now\<rparr> else m1);
             m3 = (if status m2 = LIVE
                   then (if started_at m2 = None then m2\<lparr>started_at := Some now\<rparr> else m2)
                          \<lparr>predictions_locked := True\<rparr>
                   else m2)
         in Inr m3))"

definition match_model_validate :: "datetime \<Rightarrow> match \<Rightarrow> error + match" where
  "match_model_validate now doc =
     (case match_fields doc of
        Inl e \<Rightarrow> Inl e
      | Inr m \<Rightarrow>
          (case teams_must_be_different m of
             Inl e \<Rightarrow> Inl e
           | Inr m1 \<Rightarrow> validate_status_consistency now m1))"

text \<open>\<^verbatim>\<open>BaseRepository.get_by_id\<close> on the matches collection.\<close>

definition match_get_by_id :: "database \<Rightarrow> oid \<Rightarrow> datetime \<Rightarrow> error + match option" where
  "match_get_by_id db i now =
     (case matches db i of
        None \<Rightarrow> Inr None
      | Some doc \<Rightarrow>
          (case match_model_validate now doc of
             Inl e \<Rightarrow> Inl e
           | Inr m \<Rightarrow> Inr (Some m)))"

text \<open>\<^verbatim>\<open>MatchService.get_match\<close>.\<close>

definition get_match :: "database \<Rightarrow> oid \<Rightarrow> datetime \<Rightarrow> error + match" where
  "get_match db match_id' now =
     (case match_get_by_id db match_id' now of
        Inl e \<Rightarrow> Inl e
      | Inr None \<Rightarrow> Inl MatchNotFoundError
      | Inr (Some m) \<Rightarrow> Inr m)"

subsection \<open>Writing a match (repositories/match_repository.py)\<close>

text \<open>
  \<^verbatim>\<open>find_one_and_update({"_id": id}, {"$set": ...}, return_document=True)\<close> followed by
  \<^verbatim>\<open>Match.model_validate\<close> of the updated document: the write happens first, so the
  database has changed even when the validation of the result raises.
\<close>

definition match_find_one_and_update ::
  "database \<Rightarrow> oid \<Rightarrow> (match \<Rightarrow> match) \<Rightarrow> datetime \<Rightarrow> database \<times> (error + match option)" where
  "match_find_one_and_update db i f now =
     (case matches db i of
        None \<Rightarrow> (db, Inr None)
      | Some doc \<Rightarrow>
          (db\<lparr>matches := (matches db)(i \<mapsto> f doc)\<rparr>,
           case match_model_validate now (f doc) of
             Inl e \<Rightarrow> Inl e
           | Inr m \<Rightarrow> Inr (Some m)))"

definition set_result ::
  "database \<Rightarrow> oid \<Rightarrow> match_result \<Rightarrow> datetime \<Rightarrow> database \<times> (error + match option)" where
  "set_result db i result now =
     (let finished = (case result_finished_at result of Some t \<Rightarrow> t | None \<Rightarrow> now)
      in match_find_one_and_update db i
           (\<lambda>doc. doc\<lparr>status := FINISHED,
                       home_score := Some (result_home_score result),
                       away_score := Some (result_away_score result),
                       finished_at := Some finished,
                       predictions_locked := True,
                       match_updated_at := Some now\<rparr>) now)"

definition repo_start_match :: "database \<Rightarrow> oid \<Rightarrow> datetime \<Rightarrow> database \<times> (error + match option)" where
  "repo_start_match db i now =
     match_find_one_and_update db i
       (\<lambda>doc. doc\<lparr>status := LIVE, started_at := Some now, predictions_locked := True,
                   match_updated_at := Some now\<rparr>) now"

definition repo_cancel_match ::
  "database \<Rightarrow> oid \<Rightarrow> string option \<Rightarrow> datetime \<Rightarrow> database \<times> (error + match option)" where
  "repo_cancel_match db i reason now =
     match_find_one_and_update db i
       (\<lambda>doc. (case reason of
                  Some r \<Rightarrow> (if r \<noteq> [] then (\<lambda>d. d\<lparr>cancellation_reason := Some r\<rparr>) else (\<lambda>d. d))
                | None \<Rightarrow> (\<lambda>d. d))
               (doc\<lparr>status := CANCELLED, cancelled_at := Some now, predictions_locked := True,
                    match_updated_at := Some now\<rparr>)) now"

definition repo_postpone_match ::
  "database \<Rightarrow> oid \<Rightarrow> datetime option \<Rightarrow> datetime \<Rightarrow> database \<times> (error + match option)" where
  "repo_postpone_match db i new_time now =
     match_find_one_and_update db i
       (\<lambda>doc. (case new_time of
                  Some t \<Rightarrow>
                    (\<lambda>d. (if t > now then d\<lparr>scheduled_at := t, predictions_locked := False\<rparr>
                          else d\<lparr>scheduled_at := t\<rparr>))
                | None \<Rightarrow> (\<lambda>d. d))
               (doc\<lparr>status := POSTPONED, match_updated_at := Some now\<rparr>)) now"

text \<open>
  \<^verbatim>\<open>update_one\<close> with a filter: the result says whether a document was modified
  (\<^verbatim>\<open>modified_count > 0\<close>), which the driver counts only when the document changed.
\<close>

definition match_update_one ::
  "database \<Rightarrow> oid \<Rightarrow> (match \<Rightarrow> bool) \<Rightarrow> (match \<Rightarrow> match) \<Rightarrow> database \<times> bool" where
  "match_update_one db i cond f =
     (case matches db i of
        None \<Rightarrow> (db, False)
      | Some doc \<Rightarrow>
          (if cond doc then (db\<lparr>matches := (matches db)(i \<mapsto> f doc)\<rparr>, f doc \<noteq> doc)
           else (db, False)))"

definition repo_lock_predictions :: "database \<Rightarrow> oid \<Rightarrow> datetime \<Rightarrow> database \<times> bool" where
  "repo_lock_predictions db i now =
     match_update_one db i (\<lambda>doc. True)
       (\<lambda>doc. doc\<lparr>predictions_locked := True, match_updated_at := Some now\<rparr>)"

definition repo_unlock_predictions :: "database \<Rightarrow> oid \<Rightarrow> datetime \<Rightarrow> database \<times> bool" where
  "repo_unlock_predictions db i now =
     match_update_one db i (\<lambda>doc. True)
       (\<lambda>doc. doc\<lparr>predictions_locked := False, match_updated_at := Some now\<rparr>)"

definition increment_prediction_count :: "database \<Rightarrow> oid \<Rightarrow> database \<times> bool" where
  "increment_prediction_count db i =
     match_update_one db i (\<lambda>doc. True)
       (\<lambda>doc. doc\<lparr>total_predictions := total_predictions doc + 1\<rparr>)"

definition decrement_prediction_count :: "database \<Rightarrow> oid \<Rightarrow> database \<times> bool" where
  "decrement_prediction_count db i =
     match_update_one db i (\<lambda>doc. total_predictions doc > 0)
       (\<lambda>doc. doc\<lparr>total_predictions := total_predictions doc - 1\<rparr>)"

text \<open>
  \<^verbatim>\<open>lock_all_starting_soon\<close>: an \<^verbatim>\<open>update_many\<close>. Points in time count microseconds, so
  \<^verbatim>\<open>timedelta(minutes=n)\<close> is \<open>n * 60000000\<close>. The result counts the documents changed.
\<close>

definition timedelta_minutes :: "int \<Rightarrow> datetime" where
  "timedelta_minutes n = n * 60000000"

definition starting_soon :: "datetime \<Rightarrow> match \<Rightarrow> bool" where
  "starting_soon cutoff doc =
     ((status doc = PENDING \<or> status doc = POSTPONED) \<and> \<not> predictions_locked doc
      \<and> scheduled_at doc \<le> cutoff)"

definition lock_all_starting_soon :: "database \<Rightarrow> int \<Rightarrow> datetime \<Rightarrow> database" where
  "lock_all_starting_soon db minutes_before now =
     (let cutoff = now + timedelta_minutes minutes_before
      in db\<lparr>matches :=
              (\<lambda>i. case matches db i of
                     None \<Rightarrow> None
                   | Some doc \<Rightarrow>
                       (if starting_soon cutoff doc
                        then Some (doc\<lparr>predictions_locked := True, match_updated_at := Some now\<rparr>)
                        else Some doc))\<rparr>)"

text \<open>
  \<^verbatim>\<open>BaseRepository.create\<close> for a match built by \<^verbatim>\<open>create_match\<close>: the document holds the
  fields the service set, a fresh \<^verbatim>\<open>_id\<close> (here \<open>new_id\<close>, chosen by the driver; an
  \<^verbatim>\<open>_id\<close> already in the collection makes \<^verbatim>\<open>insert_one\<close> raise) and both timestamps;
  every other field reads back as its default.
\<close>

definition repo_create_match ::
  "database \<Rightarrow> match_create \<Rightarrow> oid \<Rightarrow> datetime \<Rightarrow> database \<times> (error + match)" where
  "repo_create_match db data new_id now =
     (let document =
            \<lparr>match_oid = new_id, home_team = new_home_team data, away_team = new_away_team data,
             scheduled_at = new_scheduled_at data, sport = new_sport data,
             league = new_league data, season = new_season data, status = PENDING,
             home_score = None, away_score = None, started_at = None, finished_at = None,
             cancelled_at = None, predictions_locked = False, total_predictions = 0,
             cancellation_reason = None, match_created_at = Some now,
             match_updated_at = Some now\<rparr>
      in if matches db new_id \<noteq> None then (db, Inl DuplicateKeyError)
         else (db\<lparr>matches := (matches db)(new_id \<mapsto> document)\<rparr>,
               match_model_validate now document))"

text \<open>
  \<^verbatim>\<open>BaseRepository.update_by_id\<close> with a \<^verbatim>\<open>MatchUpdate\<close>: the fields that are not None
  are set; with none of them the document is only read.
\<close>

definition set_opt :: "'a option \<Rightarrow> ('a \<Rightarrow> 'm \<Rightarrow> 'm) \<Rightarrow> 'm \<Rightarrow> 'm" where
  "set_opt v f doc = (case v of None \<Rightarrow> doc | Some x \<Rightarrow> f x doc)"

definition apply_match_update :: "match_update \<Rightarrow> match \<Rightarrow> match" where
  "apply_match_update data doc =
     (set_opt (upd_home_team data) (\<lambda>x d. d\<lparr>home_team := x\<rparr>)
     (set_opt (upd_away_team data) (\<lambda>x d. d\<lparr>away_team := x\<rparr>)
     (set_opt (upd_scheduled_at data) (\<lambda>x d. d\<lparr>scheduled_at := x\<rparr>)
     (set_opt (upd_sport data) (\<lambda>x d. d\<lparr>sport := x\<rparr>)
     (set_opt (upd_league data) (\<lambda>x d. d\<lparr>league := Some x\<rparr>)
     (set_opt (upd_season data) (\<lambda>x d. d\<lparr>season := Some x\<rparr>)
     (set_opt (upd_status data) (\<lambda>x d. d\<lparr>status := x\<rparr>)
     (set_opt (upd_home_score data) (\<lambda>x d. d\<lparr>home_score := Some x\<rparr>)
     (set_opt (upd_away_score data) (\<lambda>x d. d\<lparr>away_score := Some x\<rparr>)
     (set_opt (upd_predictions_locked data) (\<lambda>x d. d\<lparr>predictions_locked := x\<rparr>)
       doc))))))))))"

definition match_update_empty :: "match_update \<Rightarrow> bool" where
  "match_update_empty data =
     (upd_home_team data = None \<and> upd_away_team data = None \<and> upd_scheduled_at data = None
      \<and> upd_sport data = None \<and> upd_league data = None \<and> upd_season data = None
      \<and> upd_status data = None \<and> upd_home_score data = None \<and> upd_away_score data = None
      \<and> upd_predictions_locked data = None)"

definition match_update_by_id ::
  "database \<Rightarrow> oid \<Rightarrow> match_update \<Rightarrow> datetime \<Rightarrow> database \<times> (error + match option)" where
  "match_update_by_id db i data now =
     (if match_update_empty data then (db, match_get_by_id db i now)
      else match_find_one_and_update db i
             (\<lambda>doc. (apply_match_update data doc)\<lparr>match_updated_at := Some now\<rparr>) now)"

subsection \<open>The match service (services/match_service.py)\<close>

definition create_match ::
  "database \<Rightarrow> match_create \<Rightarrow> oid \<Rightarrow> datetime \<Rightarrow> database \<times> (error + match)" where
  "create_match db data new_id now =
     (if new_scheduled_at data \<le> now then (db, Inl MatchServiceError)
      else repo_create_match db data new_id now)"

definition update_match ::
  "database \<Rightarrow> oid \<Rightarrow> match_update \<Rightarrow> datetime \<Rightarrow> database \<times> (error + match)" where
  "update_match db i data now =
     (case get_match db i now of
        Inl e \<Rightarrow> (db, Inl e)
      | Inr m \<Rightarrow>
          (if status m = FINISHED \<or> status m = CANCELLED then (db, Inl InvalidMatchStateError)
           else if (case upd_scheduled_at data of Some t \<Rightarrow> t \<le> now | None \<Rightarrow> False)
             then (db, Inl MatchServiceError)
           else
             (case match_update_by_id db i data now of
                (db1, Inl e) \<Rightarrow> (db1, Inl e)
              | (db1, Inr None) \<Rightarrow> (db1, Inl MatchNotFoundError)
              | (db1, Inr (Some updated)) \<Rightarrow> (db1, Inr updated))))"

definition reschedule_update :: "datetime \<Rightarrow> match_update" where
  "reschedule_update t =
     \<lparr>upd_home_team = None, upd_away_team = None, upd_scheduled_at = Some t, upd_sport = None,
      upd_league = None, upd_season = None, upd_status = Some PENDING, upd_home_score = None,
      upd_away_score = None, upd_predictions_locked = Some False\<rparr>"

definition reschedule_match ::
  "database \<Rightarrow> oid \<Rightarrow> datetime \<Rightarrow> datetime \<Rightarrow> database \<times> (error + match)" where
  "reschedule_match db i new_time now =
     (if new_time \<le> now then (db, Inl MatchServiceError)
      else
        (case get_match db i now of
           Inl e \<Rightarrow> (db, Inl e)
         | Inr m \<Rightarrow>
             (if status m = FINISHED then (db, Inl InvalidMatchStateError)
              else if status m = LIVE then (db, Inl InvalidMatchStateError)
              else update_match db i (reschedule_update new_time) now)))"

text \<open>The shared ending of the transitions: None from the repository is "not found".\<close>

definition found_or_raise ::
  "database \<times> (error + match option) \<Rightarrow> database \<times> (error + match)" where
  "found_or_raise r =
     (case r of
        (db1, Inl e) \<Rightarrow> (db1, Inl e)
      | (db1, Inr None) \<Rightarrow> (db1, Inl MatchNotFoundError)
      | (db1, Inr (Some m)) \<Rightarrow> (db1, Inr m))"

definition start_match :: "database \<Rightarrow> oid \<Rightarrow> datetime \<Rightarrow> database \<times> (error + match)" where
  "start_match db i now =
     (case get_match db i now of
        Inl e \<Rightarrow> (db, Inl e)
      | Inr m \<Rightarrow>
          (if status m \<noteq> PENDING \<and> status m \<noteq> POSTPONED then (db, Inl InvalidMatchStateError)
           else found_or_raise (repo_start_match db i now)))"

definition cancel_match ::
  "database \<Rightarrow> oid \<Rightarrow> string option \<Rightarrow> datetime \<Rightarrow> database \<times> (error + match)" where
  "cancel_match db i reason now =
     (case get_match db i now of
        Inl e \<Rightarrow> (db, Inl e)
      | Inr m \<Rightarrow>
          (if status m = FINISHED then (db, Inl InvalidMatchStateError)
           else found_or_raise (repo_cancel_match db i reason now)))"

definition postpone_match ::
  "database \<Rightarrow> oid \<Rightarrow> datetime option \<Rightarrow> datetime \<Rightarrow> database \<times> (error + match)" where
  "postpone_match db i new_time now =
     (case get_match db i now of
        Inl e \<Rightarrow> (db, Inl e)
      | Inr m \<Rightarrow>
          (if status m = FINISHED \<or> status m = CANCELLED then (db, Inl InvalidMatchStateError)
           else found_or_raise (repo_postpone_match db i new_time now)))"

definition lock_predictions :: "database \<Rightarrow> oid \<Rightarrow> datetime \<Rightarrow> database \<times> (error + bool)" where
  "lock_predictions db i now =
     (case repo_lock_predictions db i now of (db1, b) \<Rightarrow> (db1, Inr b))"

definition unlock_predictions :: "database \<Rightarrow> oid \<Rightarrow> datetime \<Rightarrow> database \<times> (error + bool)" where
  "unlock_predictions db i now =
     (case get_match db i now of
        Inl e \<Rightarrow> (db, Inl e)
      | Inr m \<Rightarrow>
          (if status m \<noteq> PENDING \<and> status m \<noteq> POSTPONED then (db, Inl InvalidMatchStateError)
           else (case repo_unlock_predictions db i now of (db1, b) \<Rightarrow> (db1, Inr b))))"

definition auto_lock_starting_matches :: "database \<Rightarrow> int \<Rightarrow> datetime \<Rightarrow> database" where
  "auto_lock_starting_matches db minutes_before now = lock_all_starting_soon db minutes_before now"

subsection \<open>The prediction repository (repositories/prediction_repository.py)\<close>

text \<open>
  \<^verbatim>\<open>PredictionBase.validate_score\<close>, the field validator of both predicted scores, and with
  it \<^verbatim>\<open>Prediction.model_validate\<close>.
\<close>

definition validate_score :: "int \<Rightarrow> error + int" where
  "validate_score v =
     (if v < 0 then Inl ValidationError else if v > 99 then Inl ValidationError else Inr v)"

definition prediction_model_validate :: "prediction_doc \<Rightarrow> error + prediction" where
  "prediction_model_validate doc =
     (case validate_score (predicted_home_score doc) of
        Inl e \<Rightarrow> Inl e
      | Inr h \<Rightarrow>
          (case validate_score (predicted_away_score doc) of
             Inl e \<Rightarrow> Inl e
           | Inr a \<Rightarrow> Inr (prediction.truncate doc)))"

text \<open>
  \<^verbatim>\<open>find_one({"user_id": user_id, "match_id": match_id})\<close> with two ObjectIds: the first
  document that holds these ObjectIds.
\<close>

definition get_by_user_and_match ::
  "database \<Rightarrow> oid \<Rightarrow> oid \<Rightarrow> error + prediction option" where
  "get_by_user_and_match db uid mid =
     (case find (\<lambda>p. \<not> ids_as_str p \<and> user_id p = uid \<and> match_id p = mid) (predictions db) of
        None \<Rightarrow> Inr None
      | Some doc \<Rightarrow>
          (case prediction_model_validate doc of
             Inl e \<Rightarrow> Inl e
           | Inr p \<Rightarrow> Inr (Some p)))"

text \<open>
  \<^verbatim>\<open>prediction.model_dump(by_alias=True)\<close>: the document of a \<^verbatim>\<open>Prediction\<close>, its three
  identifiers serialised to strings.
\<close>

definition model_dump :: "prediction \<Rightarrow> prediction_doc" where
  "model_dump p =
     \<lparr>pred_id = pred_id p, user_id = user_id p, match_id = match_id p,
      predicted_home_score = predicted_home_score p,
      predicted_away_score = predicted_away_score p, is_scored = is_scored p,
      points = points p, points_breakdown = points_breakdown p,
      actual_home_score = actual_home_score p, actual_away_score = actual_away_score p,
      created_at = created_at p, updated_at = updated_at p, scored_at = scored_at p,
      ids_as_str = True\<rparr>"

text \<open>
  \<^verbatim>\<open>PredictionRepository.create_prediction\<close>: the \<^verbatim>\<open>Prediction\<close> is built (its score
  validator runs; \<open>new_id\<close> is the \<^verbatim>\<open>_id\<close> its default factory makes), dumped and
  inserted. \<^verbatim>\<open>insert_one\<close> raises on a stored \<^verbatim>\<open>_id\<close> equal to the new one, which is a
  string, and, when the unique index exists, on a stored document with the same
  \<^verbatim>\<open>user_id\<close> and \<^verbatim>\<open>match_id\<close>, which are strings too.
\<close>

definition repo_create_prediction ::
  "database \<Rightarrow> oid \<Rightarrow> oid \<Rightarrow> int \<Rightarrow> int \<Rightarrow> oid \<Rightarrow> datetime \<Rightarrow> database \<times> (error + prediction)" where
  "repo_create_prediction db uid mid home away new_id now =
     (case validate_score home of
        Inl e \<Rightarrow> (db, Inl e)
      | Inr h \<Rightarrow>
          (case validate_score away of
             Inl e \<Rightarrow> (db, Inl e)
           | Inr a \<Rightarrow>
               (let prediction =
                      \<lparr>pred_id = new_id, user_id = uid, match_id = mid,
                       predicted_home_score = h, predicted_away_score = a, is_scored = False,
                       points = None, points_breakdown = None, actual_home_score = None,
                       actual_away_score = None, created_at = now, updated_at = None,
                       scored_at = None\<rparr>;
                    doc = model_dump prediction
                in if list_ex (\<lambda>d. ids_as_str d \<and>
                                  (pred_id d = new_id
                                   \<or> (user_match_unique_index db \<and> user_id d = uid
                                       \<and> match_id d = mid)))
                        (predictions db)
                   then (db, Inl DuplicateKeyError)
                   else (db\<lparr>predictions := predictions db @ [doc]\<rparr>, Inr prediction))))"

text \<open>
  The value of \<^verbatim>\<open>_id\<close> as a document holds it; the collection's \<^verbatim>\<open>_id\<close> index keeps
  these values distinct.
\<close>

definition stored_id :: "prediction_doc \<Rightarrow> oid \<times> bool" where
  "stored_id p = (pred_id p, ids_as_str p)"

text \<open>
  \<^verbatim>\<open>update_one({"_id": id}, {"$set": ...})\<close> and \<^verbatim>\<open>delete_one({"_id": id})\<close> with an
  ObjectId: the first document that holds this ObjectId as its \<^verbatim>\<open>_id\<close>.
\<close>

fun update_one_by_id ::
  "oid \<Rightarrow> (prediction_doc \<Rightarrow> prediction_doc) \<Rightarrow> prediction_doc list \<Rightarrow> prediction_doc list" where
  "update_one_by_id i f [] = []"
| "update_one_by_id i f (d # ds) =
     (if \<not> ids_as_str d \<and> pred_id d = i then f d # ds else d # update_one_by_id i f ds)"

fun delete_one_by_id :: "oid \<Rightarrow> prediction_doc list \<Rightarrow> prediction_doc list" where
  "delete_one_by_id i [] = []"
| "delete_one_by_id i (d # ds) =
     (if \<not> ids_as_str d \<and> pred_id d = i then ds else d # delete_one_by_id i ds)"

text \<open>\<^verbatim>\<open>BaseRepository.delete_by_id\<close> on the predictions: \<^verbatim>\<open>deleted_count > 0\<close>.\<close>

definition prediction_delete_by_id :: "database \<Rightarrow> oid \<Rightarrow> database \<times> bool" where
  "prediction_delete_by_id db i =
     (db\<lparr>predictions := delete_one_by_id i (predictions db)\<rparr>,
      list_ex (\<lambda>d. \<not> ids_as_str d \<and> pred_id d = i) (predictions db))"

text \<open>The \<^verbatim>\<open>$set\<close> document of the scoring pass, applied to a stored prediction.\<close>

definition set_scored ::
  "int \<Rightarrow> string \<Rightarrow> int \<Rightarrow> int \<Rightarrow> datetime \<Rightarrow> prediction_doc \<Rightarrow> prediction_doc" where
  "set_scored pts breakdown home away t doc =
     doc\<lparr>is_scored := True, points := Some pts, points_breakdown := Some breakdown,
         actual_home_score := Some home, actual_away_score := Some away,
         scored_at := Some t\<rparr>"

text \<open>
  \<^verbatim>\<open>score_predictions_for_match\<close>: the cursor of
  \<^verbatim>\<open>find({"match_id": match_id, "is_scored": False})\<close> holds the unscored predictions
  that hold this ObjectId as their match; the loop validates each document, computes its
  points and updates it by \<^verbatim>\<open>_id\<close>. A document that fails validation ends the pass with
  the earlier updates already written.
\<close>

fun score_loop ::
  "prediction_doc list \<Rightarrow> database \<Rightarrow> int \<Rightarrow> int \<Rightarrow> datetime \<Rightarrow> int \<Rightarrow> database \<times> (error + int)" where
  "score_loop [] db home away t scored_count = (db, Inr scored_count)"
| "score_loop (doc # docs) db home away t scored_count =
     (case prediction_model_validate doc of
        Inl e \<Rightarrow> (db, Inl e)
      | Inr prediction \<Rightarrow>
          (case calculate_points prediction home away of
             (pts, breakdown) \<Rightarrow>
               score_loop docs
                 (db\<lparr>predictions :=
                       update_one_by_id (pred_id prediction)
                         (set_scored pts breakdown home away t) (predictions db)\<rparr>)
                 home away t (scored_count + 1)))"

definition unscored_for_match :: "database \<Rightarrow> oid \<Rightarrow> prediction_doc list" where
  "unscored_for_match db mid =
     filter (\<lambda>p. \<not> ids_as_str p \<and> match_id p = mid \<and> \<not> is_scored p) (predictions db)"

definition score_predictions_for_match ::
  "database \<Rightarrow> oid \<Rightarrow> int \<Rightarrow> int \<Rightarrow> datetime \<Rightarrow> database \<times> (error + int)" where
  "score_predictions_for_match db mid home away now =
     score_loop (unscored_for_match db mid) db home away now 0"

text \<open>\<^verbatim>\<open>MatchService.finish_match\<close>.\<close>

definition finish_match ::
  "database \<Rightarrow> oid \<Rightarrow> match_result \<Rightarrow> bool \<Rightarrow> datetime \<Rightarrow> database \<times> (error + match \<times> int)" where
  "finish_match db i result score_predictions now =
     (case get_match db i now of
        Inl e \<Rightarrow> (db, Inl e)
      | Inr m \<Rightarrow>
          (if status m = FINISHED then (db, Inl InvalidMatchStateError)
           else if status m = CANCELLED then (db, Inl InvalidMatchStateError)
           else
             (case set_result db i result now of
                (db1, Inl e) \<Rightarrow> (db1, Inl e)
              | (db1, Inr None) \<Rightarrow> (db1, Inl MatchNotFoundError)
              | (db1, Inr (Some updated_match)) \<Rightarrow>
                  (if score_predictions
                   then
                     (case score_predictions_for_match db1 i (result_home_score result)
                             (result_away_score result) now of
                        (db2, Inl e) \<Rightarrow> (db2, Inl e)
                      | (db2, Inr scored_count) \<Rightarrow> (db2, Inr (updated_match, scored_count)))
                   else (db1, Inr (updated_match, 0))))))"

subsection \<open>The prediction service (services/prediction_service.py)\<close>

text \<open>
  Modelled from the spec: \<^verbatim>\<open>find_by_id\<close> is called by the prediction service on the three
  repositories but defined nowhere under src/ (repositories/base.py has \<^verbatim>\<open>get_by_id\<close>).
  The specification names find-by-id as an operation of the persistence collaborator: a
  lookup by \<^verbatim>\<open>_id\<close>, here with an ObjectId, that yields the entity or nothing.
\<close>

definition user_find_by_id :: "database \<Rightarrow> oid \<Rightarrow> user option" where
  "user_find_by_id db i = users db i"

definition match_find_by_id :: "database \<Rightarrow> oid \<Rightarrow> datetime \<Rightarrow> error + match option" where
  "match_find_by_id db i now = match_get_by_id db i now"

definition prediction_find_by_id :: "database \<Rightarrow> oid \<Rightarrow> error + prediction option" where
  "prediction_find_by_id db i =
     (case find (\<lambda>d. \<not> ids_as_str d \<and> pred_id d = i) (predictions db) of
        None \<Rightarrow> Inr None
      | Some doc \<Rightarrow>
          (case prediction_model_validate doc of
             Inl e \<Rightarrow> Inl e
           | Inr p \<Rightarrow> Inr (Some p)))"

text \<open>
  \<^verbatim>\<open>UserRepository.increment_stats\<close> builds the update document (\<^verbatim>\<open>$set\<close> of updated_at,
  \<^verbatim>\<open>$inc\<close> of the counters whose delta is not 0) and hands it to
  \<^verbatim>\<open>BaseRepository.update_by_id\<close>. That method takes an update schema and starts with
  \<^verbatim>\<open>data.model_dump(...)\<close>; a dict has no such attribute, so the call raises before
  anything is read or written.
\<close>

record update_document =
  set_updated_at :: datetime
  inc_total_predictions :: "int option"
  inc_total_points :: "int option"

definition user_update_by_id ::
  "database \<Rightarrow> oid \<Rightarrow> update_document \<Rightarrow> database \<times> (error + user option)" where
  "user_update_by_id db i data = (db, Inl AttributeError)"

definition increment_stats ::
  "database \<Rightarrow> oid \<Rightarrow> int \<Rightarrow> int \<Rightarrow> datetime \<Rightarrow> database \<times> (error + user option)" where
  "increment_stats db i predictions_delta points_delta now =
     user_update_by_id db i
       \<lparr>set_updated_at = now,
        inc_total_predictions = (if predictions_delta \<noteq> 0 then Some predictions_delta else None),
        inc_total_points = (if points_delta \<noteq> 0 then Some points_delta else None)\<rparr>"

definition create_prediction ::
  "database \<Rightarrow> oid \<Rightarrow> oid \<Rightarrow> int \<Rightarrow> int \<Rightarrow> oid \<Rightarrow> datetime \<Rightarrow> database \<times> (error + prediction)" where
  "create_prediction db uid mid home away new_id now =
     (case user_find_by_id db uid of
        None \<Rightarrow> (db, Inl PredictionNotAllowedError)
      | Some u \<Rightarrow>
          (if \<not> is_active u then (db, Inl PredictionNotAllowedError)
           else
             (case match_find_by_id db mid now of
                Inl e \<Rightarrow> (db, Inl e)
              | Inr None \<Rightarrow> (db, Inl PredictionNotAllowedError)
              | Inr (Some m) \<Rightarrow>
                  (if predictions_locked m then (db, Inl PredictionNotAllowedError)
                   else if status m \<noteq> PENDING \<and> status m \<noteq> POSTPONED
                     then (db, Inl PredictionNotAllowedError)
                   else
                     (case get_by_user_and_match db uid mid of
                        Inl e \<Rightarrow> (db, Inl e)
                      | Inr (Some existing) \<Rightarrow> (db, Inl DuplicatePredictionError)
                      | Inr None \<Rightarrow>
                          (if home < 0 \<or> away < 0 then (db, Inl PredictionNotAllowedError)
                           else if home > 99 \<or> away > 99 then (db, Inl PredictionNotAllowedError)
                           else
                             (case repo_create_prediction db uid mid home away new_id now of
                                (db1, Inl e) \<Rightarrow> (db1, Inl e)
                              | (db1, Inr prediction) \<Rightarrow>
                                  (let db2 = fst (increment_prediction_count db1 mid)
                                   in case increment_stats db2 uid 1 0 now of
                                        (db3, Inl e) \<Rightarrow> (db3, Inl e)
                                      | (db3, Inr u1) \<Rightarrow> (db3, Inr prediction)))))))))"

definition delete_prediction ::
  "database \<Rightarrow> oid \<Rightarrow> oid \<Rightarrow> datetime \<Rightarrow> database \<times> (error + bool)" where
  "delete_prediction db pid uid now =
     (case prediction_find_by_id db pid of
        Inl e \<Rightarrow> (db, Inl e)
      | Inr None \<Rightarrow> (db, Inl PredictionNotFoundError)
      | Inr (Some prediction) \<Rightarrow>
          (if user_id prediction \<noteq> uid then (db, Inl PredictionNotAllowedError)
           else if is_scored prediction then (db, Inl PredictionNotAllowedError)
           else
             (case prediction_delete_by_id db pid of
                (db1, deleted) \<Rightarrow>
                  (if deleted
                   then
                     (let db2 = fst (decrement_prediction_count db1 (match_id prediction))
                      in case increment_stats db2 uid (- 1) 0 now of
                           (db3, Inl e) \<Rightarrow> (db3, Inl e)
                         | (db3, Inr u1) \<Rightarrow> (db3, Inr deleted))
                   else (db1, Inr deleted)))))"

subsection \<open>A small database for the concrete instances\<close>

definition match0 :: match where
  "match0 = \<lparr>match_oid = 10, home_team = ''Ajax'', away_team = ''Feyenoord'', scheduled_at = 5000,
     sport = FOOTBALL, league = None, season = None, status = PENDING, home_score = None,
     away_score = None, started_at = None, finished_at = None, cancelled_at = None,
     predictions_locked = False, total_predictions = 1, cancellation_reason = None,
     match_created_at = Some 0, match_updated_at = Some 0\<rparr>"

definition user0 :: user where
  "user0 = \<lparr>user_oid = 1, username = ''ann'', is_active = True, user_total_predictions = 1,
     user_total_points = 0, user_updated_at = None\<rparr>"

text \<open>The stored prediction holds ObjectIds, and the unique index exists.\<close>

definition pred0 :: prediction_doc where
  "pred0 = \<lparr>pred_id = 100, user_id = 1, match_id = 10, predicted_home_score = 2,
     predicted_away_score = 1, is_scored = False, points = None, points_breakdown = None,
     actual_home_score = None, actual_away_score = None, created_at = 0, updated_at = None,
     scored_at = None, ids_as_str = False\<rparr>"

definition db0 :: database where
  "db0 = \<lparr>matches = [10 \<mapsto> match0], predictions = [pred0], users = [1 \<mapsto> user0],
     user_match_unique_index = True\<rparr>"

definition create0 :: match_create where
  "create0 = \<lparr>new_home_team = ''PSV'', new_away_team = ''Twente'', new_scheduled_at = 900,
     new_sport = FOOTBALL, new_league = None, new_season = None\<rparr>"

subsection \<open>What the scoring pass writes\<close>

text \<open>
  The document a prediction becomes when it is scored against the final score: the rule's
  points and rationale, the actual scores and the time of the pass.
\<close>

definition scored_version :: "int \<Rightarrow> int \<Rightarrow> datetime \<Rightarrow> prediction_doc \<Rightarrow> prediction_doc" where
  "scored_version home away t p =
     set_scored (fst (calculate_points (prediction.truncate p) home away))
       (snd (calculate_points (prediction.truncate p) home away)) home away t p"


subsection \<open>More of the small database\<close>

definition match_finished0 :: match where
  "match_finished0 = match0\<lparr>status := FINISHED, home_score := Some 2, away_score := Some 1,
     finished_at := Some 900, predictions_locked := True\<rparr>"

definition db_finished :: database where
  "db_finished = db0\<lparr>matches := [10 \<mapsto> match_finished0]\<rparr>"

definition result0 :: match_result where
  "result0 = \<lparr>result_home_score = 2, result_away_score = 1, result_finished_at = None\<rparr>"



text \<open>
  A finished match without scores: \<^verbatim>\<open>update_match\<close> with only the status set writes it
  (and raises when it validates what it wrote).
\<close>

definition finished_update :: match_update where
  "finished_update =
     \<lparr>upd_home_team = None, upd_away_team = None, upd_scheduled_at = None, upd_sport = None,
      upd_league = None, upd_season = None, upd_status = Some FINISHED, upd_home_score = None,
      upd_away_score = None, upd_predictions_locked = None\<rparr>"

definition db_finished_without_scores :: database where
  "db_finished_without_scores = fst (update_match db0 10 finished_update 1000)"

definition match_after0 :: match where
  "match_after0 = match0\<lparr>status := FINISHED, home_score := Some 2, away_score := Some 1,
     finished_at := Some 1000, predictions_locked := True, match_updated_at := Some 1000\<rparr>"

subsection \<open>The operations that write the matches collection\<close>

text \<open>
  The public operations of the match service, the two prediction-service operations that
  move a match's prediction counter, and the two counter operations of the match
  repository themselves. \<open>apply_operation\<close> is the database an operation leaves behind
  (whether it returned or raised), \<open>run_operations\<close> a sequence of them, each at its own
  time.
\<close>

datatype operation =
    CreateMatch match_create oid
  | UpdateMatch oid match_update
  | RescheduleMatch oid datetime
  | StartMatch oid
  | FinishMatch oid match_result bool
  | CancelMatch oid "string option"
  | PostponeMatch oid "datetime option"
  | LockPredictions oid
  | UnlockPredictions oid
  | AutoLockStartingMatches int
  | CreatePrediction oid oid int int oid
  | DeletePrediction oid oid
  | IncrementPredictionCount oid
  | DecrementPredictionCount oid

fun apply_operation :: "datetime \<Rightarrow> operation \<Rightarrow> database \<Rightarrow> database" where
  "apply_operation now (CreateMatch data new_id) db = fst (create_match db data new_id now)"
| "apply_operation now (UpdateMatch i data) db = fst (update_match db i data now)"
| "apply_operation now (RescheduleMatch i t) db = fst (reschedule_match db i t now)"
| "apply_operation now (StartMatch i) db = fst (start_match db i now)"
| "apply_operation now (FinishMatch i result sp) db = fst (finish_match db i result sp now)"
| "apply_operation now (CancelMatch i reason) db = fst (cancel_match db i reason now)"
| "apply_operation now (PostponeMatch i t) db = fst (postpone_match db i t now)"
| "apply_operation now (LockPredictions i) db = fst (lock_predictions db i now)"
| "apply_operation now (UnlockPredictions i) db = fst (unlock_predictions db i now)"
| "apply_operation now (AutoLockStartingMatches n) db = auto_lock_starting_matches db n now"
| "apply_operation now (CreatePrediction uid mid home away new_id) db =
     fst (create_prediction db uid mid home away new_id now)"
| "apply_operation now (DeletePrediction pid uid) db = fst (delete_prediction db pid uid now)"
| "apply_operation now (IncrementPredictionCount i) db = fst (increment_prediction_count db i)"
| "apply_operation now (DecrementPredictionCount i) db = fst (decrement_prediction_count db i)"

fun run_operations :: "(datetime \<times> operation) list \<Rightarrow> database \<Rightarrow> database" where
  "run_operations [] db = db"
| "run_operations ((now, op) # ops) db = run_operations ops (apply_operation now op db)"

fun is_decrement :: "operation \<Rightarrow> bool" where
  "is_decrement (DecrementPredictionCount i) = True"
| "is_decrement (DeletePrediction pid uid) = True"
| "is_decrement op = False"

text \<open>The counter of a match, when the match exists, and what an operation may do to it.\<close>

definition prediction_counter :: "database \<Rightarrow> oid \<Rightarrow> int option" where
  "prediction_counter db i = map_option total_predictions (matches db i)"

definition counter_ok :: "database \<Rightarrow> oid \<Rightarrow> bool" where
  "counter_ok db i = (case prediction_counter db i of None \<Rightarrow> True | Some c \<Rightarrow> 0 \<le> c)"

definition counter_step :: "bool \<Rightarrow> int option \<Rightarrow> int option \<Rightarrow> bool" where
  "counter_step dec before after =
     (case before of
        None \<Rightarrow> after = None \<or> after = Some 0
      | Some c \<Rightarrow>
          after = Some c \<or> (\<not> dec \<and> after = Some (c + 1))
          \<or> (dec \<and> 0 < c \<and> after = Some (c - 1)))"

definition match_zero :: match where
  "match_zero = match0\<lparr>total_predictions := 0\<rparr>"

definition db_zero :: database where
  "db_zero = db0\<lparr>matches := [10 \<mapsto> match_zero]\<rparr>"

text \<open>
  An open match without predictions, with and without the unique index, and two calls of
  \<^verbatim>\<open>create_prediction\<close> by user 1 for match 10. \<open>stored_refs\<close> is what a document holds
  as its user and its match.
\<close>

definition db_open :: database where
  "db_open = db_zero\<lparr>predictions := []\<rparr>"

definition db_open_no_index :: database where
  "db_open_no_index = db_open\<lparr>user_match_unique_index := False\<rparr>"

definition create_twice :: "(datetime \<times> operation) list" where
  "create_twice = [(1000, CreatePrediction 1 10 2 1 101), (1001, CreatePrediction 1 10 3 0 102)]"

definition stored_refs :: "prediction_doc \<Rightarrow> oid \<times> oid \<times> bool" where
  "stored_refs p = (user_id p, match_id p, ids_as_str p)"

subsection \<open>The leaderboard (services/analytics_service.py)\<close>



















fun map_result :: "('a \<Rightarrow> error + 'b) \<Rightarrow> 'a list \<Rightarrow> error + 'b list" where
  "map_result f [] = Inr []"
| "map_result f (x # xs) =
     (case f x of
        Inl e \<Rightarrow> Inl e
      | Inr y \<Rightarrow> (case map_result f xs of Inl e \<Rightarrow> Inl e | Inr ys \<Rightarrow> Inr (y # ys)))"













definition scored_count :: "prediction_doc list \<Rightarrow> oid \<Rightarrow> int" where
  "scored_count docs u = int (length (filter (\<lambda>p. user_id p = u) docs))"




definition db_scored :: database where
  "db_scored = fst (finish_match db0 10 result0 True 1000)"

subsection \<open>The other scoring path (services/prediction_service.py)\<close>

text \<open>
  \<^verbatim>\<open>get_match_predictions\<close>: the predictions that hold this ObjectId as their match, by
  created_at, ascending, skipped and limited (the callers pass a positive limit), each
  validated.
\<close>

definition get_match_predictions ::
  "database \<Rightarrow> oid \<Rightarrow> int \<Rightarrow> int \<Rightarrow> error + prediction list" where
  "get_match_predictions db mid skip limit =
     map_result prediction_model_validate
       (take (nat limit) (drop (nat skip)
          (sort_key created_at
             (filter (\<lambda>p. \<not> ids_as_str p \<and> match_id p = mid) (predictions db)))))"

text \<open>
  \<^verbatim>\<open>score_match_predictions\<close>: the same scoring pass, followed by the loop that calls
  \<^verbatim>\<open>increment_stats\<close> with the points of each scored prediction for its owner.
\<close>

fun apply_point_deltas ::
  "prediction list \<Rightarrow> database \<Rightarrow> datetime \<Rightarrow> database \<times> (error + unit)" where
  "apply_point_deltas [] db now = (db, Inr ())"
| "apply_point_deltas (pred # preds) db now =
     (case points pred of
        Some pts \<Rightarrow>
          (if is_scored pred
           then
             (case increment_stats db (user_id pred) 0 pts now of
                (db1, Inl e) \<Rightarrow> (db1, Inl e)
              | (db1, Inr u1) \<Rightarrow> apply_point_deltas preds db1 now)
           else apply_point_deltas preds db now)
      | None \<Rightarrow> apply_point_deltas preds db now)"

definition score_match_predictions ::
  "database \<Rightarrow> oid \<Rightarrow> datetime \<Rightarrow> database \<times> (error + int)" where
  "score_match_predictions db mid now =
     (case match_find_by_id db mid now of
        Inl e \<Rightarrow> (db, Inl e)
      | Inr None \<Rightarrow> (db, Inl PredictionServiceError)
      | Inr (Some m) \<Rightarrow>
          (if status m \<noteq> FINISHED then (db, Inl PredictionServiceError)
           else
             (case (home_score m, away_score m) of
                (Some home, Some away) \<Rightarrow>
                  (case score_predictions_for_match db mid home away now of
                     (db1, Inl e) \<Rightarrow> (db1, Inl e)
                   | (db1, Inr count) \<Rightarrow>
                       (if count > 0
                        then
                          (case get_match_predictions db1 mid 0 1000 of
                             Inl e \<Rightarrow> (db1, Inl e)
                           | Inr preds \<Rightarrow>
                               (case apply_point_deltas preds db1 now of
                                  (db2, Inl e) \<Rightarrow> (db2, Inl e)
                                | (db2, Inr u1) \<Rightarrow> (db2, Inr count)))
                        else (db1, Inr count)))
              | _ \<Rightarrow> (db, Inl PredictionServiceError))))"

definition db_unscored :: database where
  "db_unscored = fst (finish_match db0 10 result0 False 1000)"

section \<open>Verified properties\<close>

subsection \<open>The scoring rule\<close>

lemma outcome_strings_distinct:
  "HOME_WIN \<noteq> AWAY_WIN" "HOME_WIN \<noteq> DRAW" "AWAY_WIN \<noteq> DRAW"
  by (simp_all add: HOME_WIN_def AWAY_WIN_def DRAW_def)

lemma predicted_outcome_category:
  "(predicted_outcome p =
      (if ah > aa then HOME_WIN else if ah < aa then AWAY_WIN else DRAW))
   = (category (predicted_home_score p) (predicted_away_score p) = category ah aa)"
  using outcome_strings_distinct
  by (auto simp add: predicted_outcome_def category_def)

text \<open>
  C1. For every predicted pair and actual pair with components in 0..99 the points of
  \<open>calculate_points\<close> follow the precedence of the specification (3 for the exact pair,
  else 2 for the same outcome category and the same goal difference, else 1 for the same
  category, else 0); and a prediction scored against its own pair gets 3.
\<close>

theorem calculate_points_precedence:
  assumes "valid_score (predicted_home_score p)" and "valid_score (predicted_away_score p)"
    and "valid_score ah" and "valid_score aa"
  shows "fst (calculate_points p ah aa)
           = spec_points (predicted_home_score p) (predicted_away_score p) ah aa
         \<and> fst (calculate_points p (predicted_home_score p) (predicted_away_score p)) = 3"
proof -
  have cat: "(predicted_outcome p = (if ah > aa then HOME_WIN else if ah < aa then AWAY_WIN else DRAW))
      = (category (predicted_home_score p) (predicted_away_score p) = category ah aa)"
    by (rule predicted_outcome_category)
  have first: "fst (calculate_points p ah aa)
           = spec_points (predicted_home_score p) (predicted_away_score p) ah aa"
    unfolding calculate_points_def spec_points_def Let_def cat predicted_goal_difference_def
    by (simp add: EXACT_SCORE_def CORRECT_DIFFERENCE_def CORRECT_OUTCOME_def INCORRECT_def)
  have second: "fst (calculate_points p (predicted_home_score p) (predicted_away_score p)) = 3"
    by (simp add: calculate_points_def Let_def EXACT_SCORE_def)
  from first second show ?thesis by simp
qed

theorem calculate_points_precedence_witness:
  "fst (calculate_points
          \<lparr>pred_id = 1, user_id = 2, match_id = 3, predicted_home_score = 3,
           predicted_away_score = 1, is_scored = False, points = None,
           points_breakdown = None, actual_home_score = None, actual_away_score = None,
           created_at = 0, updated_at = None, scored_at = None\<rparr> 4 2) = 2"
proof -
  let ?p = "\<lparr>pred_id = 1, user_id = 2, match_id = 3, predicted_home_score = 3,
           predicted_away_score = 1, is_scored = False, points = None,
           points_breakdown = None, actual_home_score = None, actual_away_score = None,
           created_at = 0, updated_at = None, scored_at = None\<rparr>"
  have "fst (calculate_points ?p 4 2)
          = spec_points (predicted_home_score ?p) (predicted_away_score ?p) 4 2"
    using calculate_points_precedence [of ?p 4 2] by (simp add: valid_score_def)
  then show ?thesis by (simp add: spec_points_def category_def)
qed

subsection \<open>Streaks\<close>

lemma streak_loop_snoc: "streak_loop (rs @ [r]) s = streak_step r (streak_loop rs s)"
  by (induction rs arbitrary: s) auto


lemma all_suffix_length_le:
  assumes "suffix ys xs" and "list_all P ys"
  shows "length ys \<le> length (takeWhile P (rev xs))"
proof -
  from assms(1) obtain zs where xs: "xs = zs @ ys" by (auto simp: suffix_def)
  have "takeWhile P (rev ys @ rev zs) = rev ys @ takeWhile P (rev zs)"
    using assms(2) by (intro takeWhile_append2) (simp add: list_all_iff)
  then show ?thesis by (simp add: xs)
qed

lemma takeWhile_rev_suffix:
  "suffix (rev (takeWhile P (rev xs))) xs"
proof -
  have "rev xs = takeWhile P (rev xs) @ dropWhile P (rev xs)" by simp
  then have "xs = rev (dropWhile P (rev xs)) @ rev (takeWhile P (rev xs))"
    by (metis rev_append rev_rev_ident)
  then show ?thesis unfolding suffix_def by blast
qed

lemma trailing_run_takeWhile: "trailing_run P xs = length (takeWhile P (rev xs))"
  unfolding trailing_run_def
proof (rule Max_eqI)
  show "finite (set (map length (filter (list_all P) (suffixes xs))))" by (rule finite_set)
next
  fix n assume "n \<in> set (map length (filter (list_all P) (suffixes xs)))"
  then obtain ys where "suffix ys xs" "list_all P ys" "n = length ys" by auto
  then show "n \<le> length (takeWhile P (rev xs))" using all_suffix_length_le by blast
next
  have "list_all P (rev (takeWhile P (rev xs)))"
    by (simp add: list_all_iff) (meson set_takeWhileD)
  then have "rev (takeWhile P (rev xs)) \<in> set (filter (list_all P) (suffixes xs))"
    using takeWhile_rev_suffix [of P xs] by simp
  then have "length (rev (takeWhile P (rev xs))) \<in> set (map length (filter (list_all P) (suffixes xs)))"
    by (metis (no_types, lifting) image_eqI set_map)
  then show "length (takeWhile P (rev xs)) \<in> set (map length (filter (list_all P) (suffixes xs)))"
    by simp
qed

lemma trailing_run_Nil: "trailing_run P [] = 0"
  by (simp add: trailing_run_takeWhile)

lemma trailing_run_snoc:
  "trailing_run P (xs @ [x]) = (if P x then Suc (trailing_run P xs) else 0)"
  by (simp add: trailing_run_takeWhile)

lemma longest_run_Nil: "longest_run P [] = 0"
  by (simp add: longest_run_def)

lemma longest_run_snoc:
  "longest_run P (xs @ [x]) = max (longest_run P xs) (trailing_run P (xs @ [x]))"
proof -
  let ?A = "set (map length (filter (list_all P) (sublists xs)))"
  let ?B = "set (map length (filter (list_all P) (suffixes (xs @ [x]))))"
  have "set (filter (list_all P) (sublists (xs @ [x])))
      = set (filter (list_all P) (sublists xs)) \<union> set (filter (list_all P) (suffixes (xs @ [x])))"
  proof (rule set_eqI)
    fix ys
    have "sublist ys (xs @ [x]) \<longleftrightarrow> sublist ys xs \<or> suffix ys (xs @ [x])"
      using sublist_snoc [of ys xs x] by blast
    then show "ys \<in> set (filter (list_all P) (sublists (xs @ [x])))
        \<longleftrightarrow> ys \<in> set (filter (list_all P) (sublists xs))
              \<union> set (filter (list_all P) (suffixes (xs @ [x])))"
      by (simp only: set_filter mem_Collect_eq Un_iff in_set_sublists in_set_suffixes) blast
  qed
  then have split: "set (map length (filter (list_all P) (sublists (xs @ [x])))) = ?A \<union> ?B"
    by (simp only: set_map image_Un)
  have "[] \<in> set (filter (list_all P) (sublists xs))" by simp
  then have neA: "?A \<noteq> {}" unfolding set_map by (metis empty_iff imageI)
  have "[] \<in> set (filter (list_all P) (suffixes (xs @ [x])))" by simp
  then have neB: "?B \<noteq> {}" unfolding set_map by (metis empty_iff imageI)
  have "Max (?A \<union> ?B) = max (Max ?A) (Max ?B)"
    using neA neB by (intro Max_Un) (rule finite_set, assumption, rule finite_set, assumption)
  then show ?thesis
    unfolding longest_run_def trailing_run_def split .
qed


lemma trailing_run_map: "trailing_run P (map f xs) = trailing_run (P \<circ> f) xs"
  by (simp add: trailing_run_takeWhile rev_map takeWhile_map)

lemma longest_run_map: "longest_run P (map f xs) = longest_run (P \<circ> f) xs"
proof (induction xs rule: rev_induct)
  case Nil
  show ?case by (simp add: longest_run_Nil)
next
  case (snoc x xs)
  have "longest_run P (map f (xs @ [x]))
      = max (longest_run P (map f xs)) (trailing_run P (map f (xs @ [x])))"
    using longest_run_snoc [of P "map f xs" "f x"] by simp
  also have "\<dots> = max (longest_run (P \<circ> f) xs) (trailing_run (P \<circ> f) (xs @ [x]))"
    by (simp only: snoc.IH trailing_run_map)
  finally show ?case by (simp only: longest_run_snoc)
qed

lemma streak_loop_runs:
  "streak_loop rs (0, 0, 0, 0)
     = (int (longest_run (\<lambda>r. r = 1) rs), int (longest_run (\<lambda>r. r \<noteq> 1) rs),
        int (trailing_run (\<lambda>r. r = 1) rs), int (trailing_run (\<lambda>r. r \<noteq> 1) rs))"
proof (induction rs rule: rev_induct)
  case Nil
  show ?case by (simp add: longest_run_Nil trailing_run_Nil)
next
  case (snoc r rs)
  show ?case
    by (simp add: streak_loop_snoc snoc.IH longest_run_snoc trailing_run_snoc max_def)
qed

lemma current_loop_takeWhile:
  "current_loop rs c = c + int (length (takeWhile (\<lambda>r. r = 1) rs))"
  by (induction rs arbitrary: c) simp_all

lemma calculate_streaks_runs:
  "calculate_streaks rs
     = (int (trailing_run (\<lambda>r. r = 1) rs), int (longest_run (\<lambda>r. r = 1) rs),
        int (longest_run (\<lambda>r. r \<noteq> 1) rs))"
  by (simp add: calculate_streaks_def streak_loop_runs current_loop_takeWhile
      trailing_run_takeWhile longest_run_Nil)

text \<open>
  C6. For every sequence of points of scored predictions in chronological order (a hit is
  a prediction with points > 0), the streak computation returns as current streak the
  length of the trailing run of hits, as best streak the length of the longest run of
  hits and as worst streak the length of the longest run of misses; the sequence
  hit, hit, miss, hit gives (1, 2, 1).
\<close>

theorem user_streaks_runs:
  "user_streaks pts
     = (int (trailing_run (\<lambda>p. p > 0) pts), int (longest_run (\<lambda>p. p > 0) pts),
        int (longest_run (\<lambda>p. \<not> p > 0) pts))
   \<and> user_streaks [3, 1, 0, 2] = (1, 2, 1)"
proof -
  have hit: "(\<lambda>r. r = 1) \<circ> (\<lambda>p::int. if p > 0 then 1 else (0::int)) = (\<lambda>p. p > 0)"
    by (rule ext) simp
  have miss: "(\<lambda>r. r \<noteq> 1) \<circ> (\<lambda>p::int. if p > 0 then 1 else (0::int)) = (\<lambda>p. \<not> p > 0)"
    by (rule ext) simp
  have general: "user_streaks pts
     = (int (trailing_run (\<lambda>p. p > 0) pts), int (longest_run (\<lambda>p. p > 0) pts),
        int (longest_run (\<lambda>p. \<not> p > 0) pts))" for pts
  proof (cases "pts = []")
    case True
    then show ?thesis
      by (simp add: user_streaks_def streak_results_def longest_run_Nil trailing_run_Nil)
  next
    case False
    then have "user_streaks pts = calculate_streaks (streak_results pts)"
      by (simp add: user_streaks_def streak_results_def)
    then show ?thesis
      unfolding calculate_streaks_runs streak_results_def trailing_run_map longest_run_map hit miss .
  qed
  have "user_streaks [3, 1, 0, 2] = (1, 2, 1)"
    by (simp add: user_streaks_def streak_results_def calculate_streaks_def)
  with general show ?thesis by blast
qed

subsection \<open>Scheduling in the future\<close>

text \<open>
  C10. A match whose scheduled time is not strictly after the current time is refused by
  \<open>create_match\<close> with the service error, and the database is unchanged, so no match
  document comes into existence; \<open>reschedule_match\<close> refuses a new time that is not in the
  future in the same way, and \<open>update_match\<close> with such a scheduled time always fails and
  changes nothing (with the service error itself when the match is found and neither
  finished nor cancelled).
\<close>

theorem schedule_must_be_future:
  "(new_scheduled_at data \<le> now \<longrightarrow>
      create_match db data new_id now = (db, Inl MatchServiceError))
   \<and> (new_time \<le> now \<longrightarrow>
      reschedule_match db i new_time now = (db, Inl MatchServiceError))
   \<and> (upd_scheduled_at upd = Some t \<and> t \<le> now \<longrightarrow>
      fst (update_match db i upd now) = db \<and> isl (snd (update_match db i upd now))
      \<and> (\<forall>m. get_match db i now = Inr m \<and> status m \<noteq> FINISHED \<and> status m \<noteq> CANCELLED
            \<longrightarrow> snd (update_match db i upd now) = Inl MatchServiceError))"
  by (auto simp add: create_match_def reschedule_match_def update_match_def
      split: sum.splits)

theorem schedule_must_be_future_witness:
  "create_match db0 create0 11 1000 = (db0, Inl MatchServiceError)
   \<and> reschedule_match db0 10 1000 1000 = (db0, Inl MatchServiceError)
   \<and> update_match db0 10 (reschedule_update 999) 1000 = (db0, Inl MatchServiceError)"
proof -
  have g: "get_match db0 10 1000 = Inr match0"
    by code_simp
  have s: "status match0 \<noteq> FINISHED \<and> status match0 \<noteq> CANCELLED"
    by (simp add: match0_def)
  have u: "upd_scheduled_at (reschedule_update 999) = Some 999 \<and> (999::int) \<le> 1000"
    by (simp add: reschedule_update_def)
  have c: "new_scheduled_at create0 \<le> 1000" by (simp add: create0_def)
  from schedule_must_be_future [of create0 1000 db0 11 1000 10 "reschedule_update 999" 999]
    g s u c
  have "create_match db0 create0 11 1000 = (db0, Inl MatchServiceError)"
    and "reschedule_match db0 10 1000 1000 = (db0, Inl MatchServiceError)"
    and "fst (update_match db0 10 (reschedule_update 999) 1000) = db0"
    and "snd (update_match db0 10 (reschedule_update 999) 1000) = Inl MatchServiceError"
    by auto
  then show ?thesis by (simp add: prod_eq_iff)
qed

subsection \<open>Reading a stored match\<close>

lemma truncate_sel [simp]:
  "pred_id (prediction.truncate d) = pred_id d"
  "user_id (prediction.truncate d) = user_id d"
  "match_id (prediction.truncate d) = match_id d"
  "predicted_home_score (prediction.truncate d) = predicted_home_score d"
  "predicted_away_score (prediction.truncate d) = predicted_away_score d"
  "is_scored (prediction.truncate d) = is_scored d"
  "points (prediction.truncate d) = points d"
  by (simp_all add: prediction.truncate_def)

lemma match_fields_error: "match_fields m = Inl e \<Longrightarrow> e = ValidationError"
  by (simp add: match_fields_def Let_def split: if_splits)

lemma match_fields_Inr:
  "match_fields m = Inr m1 \<Longrightarrow>
     m1 = m\<lparr>home_team := strip (trim (home_team m)), away_team := strip (trim (away_team m)),
            league := map_option trim (league m), season := map_option trim (season m)\<rparr>"
  by (simp add: match_fields_def normalize_team_name_def Let_def split: if_splits)

lemma match_model_validate_error:
  "match_model_validate now m = Inl e \<Longrightarrow> e = ValidationError"
proof (cases "match_fields m")
  case (Inl e1)
  then show "match_model_validate now m = Inl e \<Longrightarrow> e = ValidationError"
    using match_fields_error [OF Inl] by (simp add: match_model_validate_def)
next
  case (Inr m1)
  then show "match_model_validate now m = Inl e \<Longrightarrow> e = ValidationError"
    by (auto simp add: match_model_validate_def teams_must_be_different_def
        validate_status_consistency_def Let_def split: if_splits)
qed

lemma match_model_validate_status:
  "match_model_validate now m = Inr m' \<Longrightarrow> status m' = status m"
proof (cases "match_fields m")
  case (Inl e1)
  then show "match_model_validate now m = Inr m' \<Longrightarrow> status m' = status m"
    by (simp add: match_model_validate_def)
next
  case (Inr m1)
  then show "match_model_validate now m = Inr m' \<Longrightarrow> status m' = status m"
    using match_fields_Inr [OF Inr]
    by (auto simp add: match_model_validate_def teams_must_be_different_def
        validate_status_consistency_def Let_def split: if_splits)
qed

lemma match_model_validate_isl:
  "isl (match_model_validate now m) \<longleftrightarrow>
     isl (match_fields m)
     \<or> lower (strip (trim (home_team m))) = lower (strip (trim (away_team m)))
     \<or> (status m = FINISHED \<and> (home_score m = None \<or> away_score m = None))"
proof (cases "match_fields m")
  case (Inl e1)
  then show ?thesis by (simp add: match_model_validate_def)
next
  case (Inr m1)
  then show ?thesis
    using match_fields_Inr [OF Inr]
    by (auto simp add: match_model_validate_def teams_must_be_different_def
        validate_status_consistency_def Let_def split: if_splits)
qed

lemma get_match_stored:
  assumes "matches db i = Some m"
  shows "get_match db i now
           = (case match_model_validate now m of Inl e \<Rightarrow> Inl e | Inr m' \<Rightarrow> Inr m')"
  using assms by (simp add: get_match_def match_get_by_id_def split: sum.split)

lemma finish_match_finished:
  assumes "matches db i = Some m" and "status m = FINISHED"
  shows "finish_match db i result sp now
           = (db, Inl (if isl (match_model_validate now m) then ValidationError
                       else InvalidMatchStateError))"
proof (cases "match_model_validate now m")
  case (Inl e)
  then have "e = ValidationError" by (rule match_model_validate_error)
  with Inl show ?thesis by (simp add: finish_match_def get_match_stored [OF assms(1)])
next
  case (Inr m')
  then have "status m' = FINISHED" using match_model_validate_status assms(2) by metis
  with Inr show ?thesis by (simp add: finish_match_def get_match_stored [OF assms(1)])
qed

lemma finish_match_read_error:
  "get_match db i now = Inl e \<Longrightarrow> finish_match db i result sp now = (db, Inl e)"
  by (simp add: finish_match_def)

lemma set_result_success:
  assumes "set_result db i result now = (db1, Inr (Some u))"
  shows "\<exists>m. matches db1 i = Some m \<and> status m = FINISHED
            \<and> \<not> isl (match_model_validate now2 m)"
proof -
  let ?f = "\<lambda>doc. doc\<lparr>status := FINISHED,
                       home_score := Some (result_home_score result),
                       away_score := Some (result_away_score result),
                       finished_at := Some (case result_finished_at result of Some t \<Rightarrow> t | None \<Rightarrow> now),
                       predictions_locked := True,
                       match_updated_at := Some now\<rparr>"
  from assms obtain doc where doc: "matches db i = Some doc"
    by (cases "matches db i") (simp_all add: set_result_def match_find_one_and_update_def Let_def)
  with assms have db1: "db1 = db\<lparr>matches := (matches db)(i \<mapsto> ?f doc)\<rparr>"
    and v: "\<not> isl (match_model_validate now (?f doc))"
    by (auto simp add: set_result_def match_find_one_and_update_def Let_def split: sum.splits)
  from v have "\<not> isl (match_model_validate now2 (?f doc))"
    unfolding match_model_validate_isl .
  with db1 show ?thesis by simp
qed

subsection \<open>The scoring pass and finishing a finished match\<close>

lemma prediction_model_validate_Inr:
  "prediction_model_validate doc = Inr p \<Longrightarrow> p = prediction.truncate doc"
  by (auto simp add: prediction_model_validate_def split: sum.splits)

lemma stored_id_set_scored [simp]: "stored_id (set_scored pts b h a t p) = stored_id p"
  by (simp add: set_scored_def stored_id_def)

lemma stored_id_scored_version [simp]: "stored_id (scored_version h a t p) = stored_id p"
  by (simp add: scored_version_def)

lemma update_one_by_id_map:
  "distinct (map stored_id ps) \<Longrightarrow>
     update_one_by_id i f ps
       = map (\<lambda>p. if \<not> ids_as_str p \<and> pred_id p = i then f p else p) ps"
proof (induction ps)
  case Nil
  show ?case by simp
next
  case (Cons d ds)
  show ?case
  proof (cases "\<not> ids_as_str d \<and> pred_id d = i")
    case True
    then have "stored_id d = (i, False)" by (simp add: stored_id_def)
    with Cons.prems have "\<forall>p \<in> set ds. stored_id p \<noteq> (i, False)"
      by (metis distinct.simps(2) imageI list.simps(9) set_map)
    then have "\<forall>p \<in> set ds. \<not> (\<not> ids_as_str p \<and> pred_id p = i)"
      by (auto simp add: stored_id_def)
    then have "map (\<lambda>p. if \<not> ids_as_str p \<and> pred_id p = i then f p else p) ds = ds"
      by (induction ds) auto
    with True show ?thesis by simp
  next
    case False
    with Cons show ?thesis by auto
  qed
qed

lemma score_loop_matches_users:
  "matches (fst (score_loop ds db h a t n)) = matches db
   \<and> users (fst (score_loop ds db h a t n)) = users db"
  by (induction ds arbitrary: db n) (auto split: sum.splits prod.splits)

lemma score_loop_success_valid:
  "score_loop ds db h a t n = (db', Inr m) \<Longrightarrow> d \<in> set ds
     \<Longrightarrow> prediction_model_validate d = Inr (prediction.truncate d)"
proof (induction ds arbitrary: db n)
  case Nil
  then show ?case by simp
next
  case (Cons x xs)
  from Cons.prems(1) obtain p where v: "prediction_model_validate x = Inr p"
    by (cases "prediction_model_validate x") auto
  then have px: "p = prediction.truncate x" by (rule prediction_model_validate_Inr)
  show ?case
  proof (cases "d = x")
    case True
    with v px show ?thesis by simp
  next
    case False
    with Cons.prems(2) have "d \<in> set xs" by simp
    moreover from Cons.prems(1) v obtain db1 n1 where "score_loop xs db1 h a t n1 = (db', Inr m)"
      by (auto split: prod.splits)
    ultimately show ?thesis using Cons.IH by blast
  qed
qed

lemma score_loop_result:
  assumes "distinct (map stored_id (predictions db))"
    and "set ds \<subseteq> set (predictions db)"
    and "distinct (map stored_id ds)"
    and "\<forall>d \<in> set ds. \<not> ids_as_str d
           \<and> prediction_model_validate d = Inr (prediction.truncate d)"
  shows "score_loop ds db h a t n =
           (db\<lparr>predictions :=
                  map (\<lambda>p. if p \<in> set ds then scored_version h a t p else p) (predictions db)\<rparr>,
            Inr (n + int (length ds)))"
  using assms
proof (induction ds arbitrary: db n)
  case Nil
  then show ?case by simp
next
  case (Cons d ds)
  let ?ps = "predictions db"
  let ?ps' = "map (\<lambda>p. if p = d then scored_version h a t d else p) ?ps"
  let ?db' = "db\<lparr>predictions := ?ps'\<rparr>"
  have d_in: "d \<in> set ?ps" using Cons.prems(2) by simp
  have d_oid: "\<not> ids_as_str d" using Cons.prems(4) by simp
  have same_id: "(\<not> ids_as_str p \<and> pred_id p = pred_id d) \<longleftrightarrow> p = d" if "p \<in> set ?ps" for p
  proof
    assume "\<not> ids_as_str p \<and> pred_id p = pred_id d"
    with d_oid have "stored_id p = stored_id d" by (simp add: stored_id_def)
    with that d_in Cons.prems(1) show "p = d" by (auto simp add: distinct_map inj_on_def)
  next
    assume "p = d"
    with d_oid show "\<not> ids_as_str p \<and> pred_id p = pred_id d" by simp
  qed
  have upd: "update_one_by_id (pred_id d)
               (set_scored (fst (calculate_points (prediction.truncate d) h a))
                  (snd (calculate_points (prediction.truncate d) h a)) h a t) ?ps
             = ?ps'"
    unfolding update_one_by_id_map [OF Cons.prems(1)] scored_version_def
    by (rule map_cong) (use same_id in auto)
  have step: "score_loop (d # ds) db h a t n = score_loop ds ?db' h a t (n + 1)"
    using Cons.prems(4) upd by (simp add: case_prod_beta)
  have ids': "map stored_id ?ps' = map stored_id ?ps"
    by (simp add: comp_def if_distrib cong: if_cong)
  have not_d: "x \<noteq> d" "stored_id x \<noteq> stored_id d" if "x \<in> set ds" for x
    using that Cons.prems(3) by (metis distinct.simps(2) imageI list.simps(9) set_map)+
  have sel: "predictions ?db' = ?ps'" by simp
  have p1: "distinct (map stored_id (predictions ?db'))"
    unfolding sel ids' by (rule Cons.prems(1))
  have p2: "set ds \<subseteq> set (predictions ?db')"
  proof
    fix x assume x: "x \<in> set ds"
    then have "x \<in> set ?ps" using Cons.prems(2) by auto
    moreover have "x \<noteq> d" using not_d x by blast
    ultimately show "x \<in> set (predictions ?db')" by force
  qed
  have p3: "distinct (map stored_id ds)" using Cons.prems(3) by simp
  have p4: "\<forall>x \<in> set ds. \<not> ids_as_str x
      \<and> prediction_model_validate x = Inr (prediction.truncate x)"
    using Cons.prems(4) by simp
  have ih: "score_loop ds ?db' h a t (n + 1) =
           (?db'\<lparr>predictions :=
                  map (\<lambda>p. if p \<in> set ds then scored_version h a t p else p) (predictions ?db')\<rparr>,
            Inr (n + 1 + int (length ds)))"
    by (rule Cons.IH [OF p1 p2 p3 p4])
  have sd: "scored_version h a t d \<notin> set ds"
    using not_d(2) [of "scored_version h a t d"] by auto
  have maps: "map (\<lambda>p. if p \<in> set ds then scored_version h a t p else p) ?ps'
      = map (\<lambda>p. if p \<in> set (d # ds) then scored_version h a t p else p) ?ps"
    using sd by (auto simp add: comp_def)
  show ?case
    unfolding step ih using maps by simp
qed

lemma score_pass_result:
  assumes "distinct (map stored_id (predictions db))"
    and "\<forall>d \<in> set (unscored_for_match db mid).
           prediction_model_validate d = Inr (prediction.truncate d)"
  shows "score_predictions_for_match db mid h a t =
           (db\<lparr>predictions :=
                  map (\<lambda>p. if \<not> ids_as_str p \<and> match_id p = mid \<and> \<not> is_scored p
                            then scored_version h a t p else p) (predictions db)\<rparr>,
            Inr (int (length (unscored_for_match db mid))))"
proof -
  have d: "distinct (map stored_id (unscored_for_match db mid))"
    unfolding unscored_for_match_def using assms(1) by (rule distinct_map_filter)
  have s: "set (unscored_for_match db mid) \<subseteq> set (predictions db)"
    by (auto simp add: unscored_for_match_def)
  have v: "\<forall>d \<in> set (unscored_for_match db mid). \<not> ids_as_str d
      \<and> prediction_model_validate d = Inr (prediction.truncate d)"
    using assms(2) by (simp add: unscored_for_match_def)
  have m: "map (\<lambda>p. if p \<in> set (unscored_for_match db mid) then scored_version h a t p else p)
             (predictions db)
         = map (\<lambda>p. if \<not> ids_as_str p \<and> match_id p = mid \<and> \<not> is_scored p
                      then scored_version h a t p else p)
             (predictions db)"
    by (rule map_cong) (auto simp add: unscored_for_match_def)
  show ?thesis
    unfolding score_predictions_for_match_def
    using score_loop_result [OF assms(1) s d v, of h a t 0] m by simp
qed

lemma score_pass_success:
  assumes "distinct (map stored_id (predictions db))"
    and "score_predictions_for_match db mid h a t = (db', Inr n)"
  shows "db' = db\<lparr>predictions :=
                  map (\<lambda>p. if \<not> ids_as_str p \<and> match_id p = mid \<and> \<not> is_scored p
                            then scored_version h a t p else p) (predictions db)\<rparr>
         \<and> n = int (length (unscored_for_match db mid))"
proof -
  from assms(2) have valid: "\<forall>d \<in> set (unscored_for_match db mid).
      prediction_model_validate d = Inr (prediction.truncate d)"
    unfolding score_predictions_for_match_def using score_loop_success_valid by blast
  from score_pass_result [OF assms(1) valid, of h a t] assms(2) show ?thesis by simp
qed

lemma score_pass_matches:
  "matches (fst (score_predictions_for_match db mid h a t)) = matches db"
  by (simp add: score_predictions_for_match_def score_loop_matches_users)

lemma set_result_predictions:
  "predictions (fst (set_result db i result now)) = predictions db"
  by (simp add: set_result_def match_find_one_and_update_def Let_def split: option.split)

lemma finish_match_cases:
  assumes "finish_match db i result sp now = (db1, Inr r)"
  shows "\<exists>dbs u. set_result db i result now = (dbs, Inr (Some u))
           \<and> (sp \<longrightarrow> score_predictions_for_match dbs i (result_home_score result)
                   (result_away_score result) now = (db1, Inr (snd r)))
           \<and> (\<not> sp \<longrightarrow> db1 = dbs)"
proof -
  obtain m0 where g: "get_match db i now = Inr m0"
    using assms by (cases "get_match db i now") (simp_all add: finish_match_def)
  have st: "status m0 \<noteq> FINISHED \<and> status m0 \<noteq> CANCELLED"
    using assms g by (cases "status m0") (simp_all add: finish_match_def)
  obtain dbs res where sr: "set_result db i result now = (dbs, res)"
    by (cases "set_result db i result now") simp
  obtain u where res: "res = Inr (Some u)"
  proof (cases res)
    case (Inl e)
    with assms g st sr show ?thesis by (simp add: finish_match_def)
  next
    case (Inr o1)
    with assms g st sr show ?thesis
      by (cases o1) (simp_all add: finish_match_def that)
  qed
  have a: "score_predictions_for_match dbs i (result_home_score result)
                   (result_away_score result) now = (db1, Inr (snd r))" if sp
  proof -
    obtain db2 res2 where sp2: "score_predictions_for_match dbs i (result_home_score result)
                       (result_away_score result) now = (db2, res2)"
      by (cases "score_predictions_for_match dbs i (result_home_score result)
                       (result_away_score result) now") simp
    with assms g st sr res that show ?thesis
      by (cases res2) (auto simp add: finish_match_def)
  qed
  have b: "db1 = dbs" if "\<not> sp"
    using assms g st sr res that by (simp add: finish_match_def)
  from sr res a b show ?thesis by blast
qed

lemma finish_match_success:
  assumes "finish_match db i result sp now = (db1, Inr r)"
  shows "\<exists>m. matches db1 i = Some m \<and> status m = FINISHED
            \<and> \<not> isl (match_model_validate now2 m)"
proof -
  from finish_match_cases [OF assms] obtain dbs u
    where sr: "set_result db i result now = (dbs, Inr (Some u))"
    and a: "sp \<Longrightarrow> score_predictions_for_match dbs i (result_home_score result)
                   (result_away_score result) now = (db1, Inr (snd r))"
    and b: "\<not> sp \<Longrightarrow> db1 = dbs"
    by blast
  have m: "matches db1 = matches dbs"
  proof (cases sp)
    case True
    from a [OF True]
      score_pass_matches [of dbs i "result_home_score result" "result_away_score result" now]
    show ?thesis by simp
  next
    case False
    with b show ?thesis by simp
  qed
  from set_result_success [OF sr, of now2] m show ?thesis by simp
qed

lemma finish_match_predictions:
  assumes "distinct (map stored_id (predictions db))"
    and "finish_match db i result True now = (db1, Inr (updated, n))"
  shows "predictions db1 =
           map (\<lambda>p. if \<not> ids_as_str p \<and> match_id p = i \<and> \<not> is_scored p
                     then scored_version (result_home_score result) (result_away_score result) now p
                     else p) (predictions db)
         \<and> n = int (length (unscored_for_match db i))"
proof -
  from finish_match_cases [OF assms(2)] obtain dbs u
    where sr: "set_result db i result now = (dbs, Inr (Some u))"
    and a: "score_predictions_for_match dbs i (result_home_score result)
                   (result_away_score result) now = (db1, Inr n)"
    by auto
  from sr set_result_predictions [of db i result now]
  have ps: "predictions dbs = predictions db" by simp
  then have d: "distinct (map stored_id (predictions dbs))" using assms(1) by simp
  from ps have un: "unscored_for_match dbs i = unscored_for_match db i"
    by (simp add: unscored_for_match_def)
  from score_pass_success [OF d a] ps un show ?thesis by simp
qed

lemma is_scored_scored_version [simp]: "is_scored (scored_version h a t p)"
  by (simp add: scored_version_def set_scored_def)

lemma match_id_scored_version [simp]: "match_id (scored_version h a t p) = match_id p"
  by (simp add: scored_version_def set_scored_def)

lemma filter_map_scored:
  "filter (\<lambda>q. \<not> ids_as_str q \<and> match_id q = mid \<and> \<not> is_scored q)
     (map (\<lambda>p. if \<not> ids_as_str p \<and> match_id p = mid \<and> \<not> is_scored p
                then scored_version h a t p else p) ps) = []"
  by (induction ps) simp_all

lemma unscored_after_pass:
  "unscored_for_match
     (db\<lparr>predictions :=
           map (\<lambda>p. if \<not> ids_as_str p \<and> match_id p = mid \<and> \<not> is_scored p
                     then scored_version h a t p else p)
             (predictions db)\<rparr>) mid = []"
proof -
  have sel: "predictions (db\<lparr>predictions := ps\<rparr>) = ps" for ps by simp
  show ?thesis unfolding unscored_for_match_def sel by (rule filter_map_scored)
qed

text \<open>
  C2, as the code has it. Finishing a match whose stored status is finished always fails
  and returns the database as it was: no prediction, user or match document changes. The
  error is the invalid-state error when the stored document reads as a \<^verbatim>\<open>Match\<close>, and
  the validation error of the read otherwise, which is the case exactly when a field of
  the document breaks its constraint, the two team names are the same or the document is
  finished without both scores. A second finish
  after a successful one fails with the invalid-state error. The scoring pass that a
  successful finish runs rewrites exactly the predictions of the match with
  is_scored = false (every other prediction, the scored ones included, stays as it is) and
  counts them; a second pass over the result finds none and changes nothing. The \<^verbatim>\<open>_id\<close>
  values of the collection are distinct.
\<close>

theorem finish_finished_match:
  "(matches db i = Some m \<and> status m = FINISHED \<longrightarrow>
      finish_match db i result sp now
        = (db, Inl (if isl (match_model_validate now m) then ValidationError
                    else InvalidMatchStateError)))
   \<and> (isl (match_model_validate now m) \<longleftrightarrow>
        isl (match_fields m)
        \<or> lower (strip (trim (home_team m))) = lower (strip (trim (away_team m)))
        \<or> (status m = FINISHED \<and> (home_score m = None \<or> away_score m = None)))
   \<and> (finish_match db i result sp now = (db1, Inr r) \<longrightarrow>
      finish_match db1 i result2 sp2 now2 = (db1, Inl InvalidMatchStateError))
   \<and> (distinct (map stored_id (predictions db))
      \<and> finish_match db i result True now = (db1, Inr (updated, n)) \<longrightarrow>
      predictions db1 =
        map (\<lambda>p. if \<not> ids_as_str p \<and> match_id p = i \<and> \<not> is_scored p
                  then scored_version (result_home_score result) (result_away_score result) now p
                  else p) (predictions db)
      \<and> n = int (length (unscored_for_match db i)))
   \<and> (distinct (map stored_id (predictions db))
      \<and> score_predictions_for_match db mid h a t = (db', Inr k) \<longrightarrow>
      predictions db' =
        map (\<lambda>p. if \<not> ids_as_str p \<and> match_id p = mid \<and> \<not> is_scored p
                  then scored_version h a t p else p) (predictions db)
      \<and> k = int (length (unscored_for_match db mid))
      \<and> score_predictions_for_match db' mid h2 a2 t2 = (db', Inr 0))"
proof (intro conjI impI)
  assume "matches db i = Some m \<and> status m = FINISHED"
  then show "finish_match db i result sp now
        = (db, Inl (if isl (match_model_validate now m) then ValidationError
                    else InvalidMatchStateError))"
    using finish_match_finished by blast
next
  show "isl (match_model_validate now m) \<longleftrightarrow>
        isl (match_fields m)
        \<or> lower (strip (trim (home_team m))) = lower (strip (trim (away_team m)))
        \<or> (status m = FINISHED \<and> (home_score m = None \<or> away_score m = None))"
    by (rule match_model_validate_isl)
next
  assume "finish_match db i result sp now = (db1, Inr r)"
  from finish_match_success [OF this, of now2] obtain m1 where
    "matches db1 i = Some m1" "status m1 = FINISHED" "\<not> isl (match_model_validate now2 m1)"
    by blast
  then show "finish_match db1 i result2 sp2 now2 = (db1, Inl InvalidMatchStateError)"
    using finish_match_finished [of db1 i m1 result2 sp2 now2] by simp
next
  assume a: "distinct (map stored_id (predictions db))
      \<and> finish_match db i result True now = (db1, Inr (updated, n))"
  then have "predictions db1 =
        map (\<lambda>p. if \<not> ids_as_str p \<and> match_id p = i \<and> \<not> is_scored p
                  then scored_version (result_home_score result) (result_away_score result) now p
                  else p) (predictions db)
      \<and> n = int (length (unscored_for_match db i))"
    using finish_match_predictions by blast
  then show "predictions db1 =
        map (\<lambda>p. if \<not> ids_as_str p \<and> match_id p = i \<and> \<not> is_scored p
                  then scored_version (result_home_score result) (result_away_score result) now p
                  else p) (predictions db)"
    and "n = int (length (unscored_for_match db i))"
    by simp_all
next
  assume a: "distinct (map stored_id (predictions db))
      \<and> score_predictions_for_match db mid h a t = (db', Inr k)"
  then have dist: "distinct (map stored_id (predictions db))"
    and pass: "score_predictions_for_match db mid h a t = (db', Inr k)"
    by simp_all
  from score_pass_success [OF dist pass]
  have db': "db' = db\<lparr>predictions :=
                  map (\<lambda>p. if \<not> ids_as_str p \<and> match_id p = mid \<and> \<not> is_scored p
                            then scored_version h a t p else p) (predictions db)\<rparr>"
    and k: "k = int (length (unscored_for_match db mid))"
    by simp_all
  show "predictions db' =
        map (\<lambda>p. if \<not> ids_as_str p \<and> match_id p = mid \<and> \<not> is_scored p
                  then scored_version h a t p else p) (predictions db)"
    using db' by simp
  show "k = int (length (unscored_for_match db mid))" by (rule k)
  show "score_predictions_for_match db' mid h2 a2 t2 = (db', Inr 0)"
    unfolding score_predictions_for_match_def db' unscored_after_pass by simp
qed

theorem finish_finished_match_witness:
  "finish_match db_finished 10 result0 True 1000 = (db_finished, Inl InvalidMatchStateError)
   \<and> finish_match db_finished_without_scores 10 result0 True 2000
       = (db_finished_without_scores, Inl ValidationError)
   \<and> finish_match (fst (finish_match db0 10 result0 True 1000)) 10 result0 True 2000
       = (fst (finish_match db0 10 result0 True 1000), Inl InvalidMatchStateError)
   \<and> predictions (fst (finish_match db0 10 result0 True 1000)) = [scored_version 2 1 1000 pred0]
   \<and> score_predictions_for_match (fst (score_predictions_for_match db0 10 2 1 1000)) 10 2 1 2000
       = (fst (score_predictions_for_match db0 10 2 1 1000), Inr 0)"
proof -
  have h1: "matches db_finished 10 = Some match_finished0 \<and> status match_finished0 = FINISHED"
    by (simp add: db_finished_def match_finished0_def)
  have v1: "\<not> isl (match_model_validate 1000 match_finished0)" by code_simp
  have m2: "matches db_finished_without_scores 10
      = Some (match0\<lparr>status := FINISHED, match_updated_at := Some 1000\<rparr>)"
    by code_simp
  have h2: "matches db_finished_without_scores 10
      = Some (match0\<lparr>status := FINISHED, match_updated_at := Some 1000\<rparr>)
      \<and> status (match0\<lparr>status := FINISHED, match_updated_at := Some 1000\<rparr>) = FINISHED"
    using m2 by simp
  have v2: "isl (match_model_validate 2000 (match0\<lparr>status := FINISHED, match_updated_at := Some 1000\<rparr>))"
    by code_simp
  have "snd (finish_match db0 10 result0 True 1000) = Inr (match_after0, 1)"
    by code_simp
  then have h3: "finish_match db0 10 result0 True 1000
      = (fst (finish_match db0 10 result0 True 1000), Inr (match_after0, 1))"
    by (simp add: prod_eq_iff)
  have d0: "distinct (map stored_id (predictions db0))" by (simp add: db0_def)
  have "snd (score_predictions_for_match db0 10 2 1 1000) = Inr 1"
    by code_simp
  then have h4: "distinct (map stored_id (predictions db0))
      \<and> score_predictions_for_match db0 10 2 1 1000
          = (fst (score_predictions_for_match db0 10 2 1 1000), Inr 1)"
    using d0 by (simp add: prod_eq_iff)
  from finish_finished_match [where db = db_finished and i = 10 and m = match_finished0
      and result = result0 and sp = True and now = 1000] h1 v1
  have c1: "finish_match db_finished 10 result0 True 1000
      = (db_finished, Inl InvalidMatchStateError)"
    by simp
  from finish_finished_match [where db = db_finished_without_scores and i = 10
      and m = "match0\<lparr>status := FINISHED, match_updated_at := Some 1000\<rparr>"
      and result = result0 and sp = True and now = 2000] h2 v2
  have c2: "finish_match db_finished_without_scores 10 result0 True 2000
       = (db_finished_without_scores, Inl ValidationError)"
    by simp
  from finish_finished_match [where db = db0 and i = 10 and result = result0 and sp = True
      and now = 1000 and ?db1.0 = "fst (finish_match db0 10 result0 True 1000)"
      and r = "(match_after0, 1)" and ?result2.0 = result0 and ?sp2.0 = True and ?now2.0 = 2000] h3
  have c3: "finish_match (fst (finish_match db0 10 result0 True 1000)) 10 result0 True 2000
       = (fst (finish_match db0 10 result0 True 1000), Inl InvalidMatchStateError)"
    by blast
  from finish_finished_match [where db = db0 and i = 10 and result = result0
      and now = 1000 and ?db1.0 = "fst (finish_match db0 10 result0 True 1000)"
      and updated = match_after0 and n = 1] h3 d0
  have "predictions (fst (finish_match db0 10 result0 True 1000)) =
        map (\<lambda>p. if \<not> ids_as_str p \<and> match_id p = 10 \<and> \<not> is_scored p
                  then scored_version (result_home_score result0) (result_away_score result0) 1000 p
                  else p) (predictions db0)"
    by blast
  then have c4: "predictions (fst (finish_match db0 10 result0 True 1000))
      = [scored_version 2 1 1000 pred0]"
    by (simp add: db0_def pred0_def result0_def)
  from finish_finished_match [where db = db0 and mid = 10 and h = 2 and a = 1 and t = 1000
      and db' = "fst (score_predictions_for_match db0 10 2 1 1000)" and k = 1
      and ?h2.0 = 2 and ?a2.0 = 1 and ?t2.0 = 2000] h4
  have c5: "score_predictions_for_match (fst (score_predictions_for_match db0 10 2 1 1000)) 10 2 1 2000
       = (fst (score_predictions_for_match db0 10 2 1 1000), Inr 0)"
    by blast
  from c1 c2 c3 c4 c5 show ?thesis by blast
qed

text \<open>
  The claim as stated fails: one \<^verbatim>\<open>update_match\<close> call that sets only the status leaves
  match 10 stored as finished without scores, and finishing it fails with the validation
  error of the read, not with the invalid-state error.
\<close>

theorem finish_finished_match_counterexample:
  "snd (update_match db0 10 finished_update 1000) = Inl ValidationError
   \<and> map_option status (matches db_finished_without_scores 10) = Some FINISHED
   \<and> map_option home_score (matches db_finished_without_scores 10) = Some None
   \<and> finish_match db_finished_without_scores 10 result0 True 2000
       = (db_finished_without_scores, Inl ValidationError)"
proof -
  have "snd (update_match db0 10 finished_update 1000) = Inl ValidationError" by code_simp
  moreover have "map_option status (matches db_finished_without_scores 10) = Some FINISHED"
    by code_simp
  moreover have "map_option home_score (matches db_finished_without_scores 10) = Some None"
    by code_simp
  moreover have "get_match db_finished_without_scores 10 2000 = Inl ValidationError"
    by code_simp
  then have "finish_match db_finished_without_scores 10 result0 True 2000
       = (db_finished_without_scores, Inl ValidationError)"
    by (rule finish_match_read_error)
  ultimately show ?thesis by simp
qed

subsection \<open>Finishing a match and the users' totals\<close>

lemma finish_match_users:
  "users (fst (finish_match db i result sp now)) = users db"
proof -
  have sr: "users (fst (set_result db i result now)) = users db"
    by (simp add: set_result_def match_find_one_and_update_def Let_def split: option.splits)
  have sp: "users (fst (score_predictions_for_match d i h a now)) = users d" for d h a
    by (simp add: score_predictions_for_match_def score_loop_matches_users)
  obtain dbs res where s: "set_result db i result now = (dbs, res)"
    by (cases "set_result db i result now") simp
  with sr have u1: "users dbs = users db" by simp
  obtain db2 res2 where s2: "score_predictions_for_match dbs i (result_home_score result)
      (result_away_score result) now = (db2, res2)"
    by (cases "score_predictions_for_match dbs i (result_home_score result)
      (result_away_score result) now") simp
  with sp [of dbs "result_home_score result" "result_away_score result"] u1
  have u2: "users db2 = users db" by simp
  show ?thesis
  proof (cases "get_match db i now")
    case (Inl e)
    then show ?thesis by (simp add: finish_match_def)
  next
    case (Inr m0)
    show ?thesis
    proof (cases "status m0 = FINISHED \<or> status m0 = CANCELLED")
      case True
      with Inr show ?thesis by (auto simp add: finish_match_def)
    next
      case False
      show ?thesis
      proof (cases res)
        case (Inl e)
        with Inr False s u1 show ?thesis by (simp add: finish_match_def)
      next
        case (Inr o1)
        note res_inr = this
        show ?thesis
        proof (cases o1)
          case None
          with \<open>get_match db i now = Inr m0\<close> res_inr False s u1 show ?thesis
            by (simp add: finish_match_def)
        next
          case (Some u)
          with \<open>get_match db i now = Inr m0\<close> res_inr False s s2 u1 u2 show ?thesis
            by (cases res2; cases sp) (simp_all add: finish_match_def)
        qed
      qed
    qed
  qed
qed

text \<open>
  The other scoring path does call \<^verbatim>\<open>increment_stats\<close> with the points of each scored
  prediction: on the match finished without scoring, \<open>score_match_predictions\<close> scores the
  prediction with 3 points and then fails in that call, which raises as the code stands;
  after \<open>finish_match\<close> has scored the prediction, the same call scores nothing and
  reaches no user.
\<close>

lemma score_match_predictions_calls_increment_stats:
  "snd (score_match_predictions db_unscored 10 2000) = Inl AttributeError
   \<and> map points (predictions (fst (score_match_predictions db_unscored 10 2000))) = [Some 3]
   \<and> snd (increment_stats db_unscored 1 0 3 2000) = Inl AttributeError
   \<and> snd (score_match_predictions db_scored 10 2000) = Inr 0"
  by code_simp

text \<open>
  C3. Finishing a match never writes a user document, so the owner of a newly scored
  prediction keeps the total points they had: with one unscored prediction 2-1 by user 1
  on match 10, finishing the match 2-1 scores that prediction with 3 points and counts 1,
  and user 1 still has 0 total points.
\<close>

theorem finish_match_leaves_user_totals:
  "users (fst (finish_match db i result sp now)) = users db
   \<and> snd (finish_match db0 10 result0 True 1000) = Inr (match_after0, 1)
   \<and> map points (predictions (fst (finish_match db0 10 result0 True 1000))) = [Some 3]
   \<and> map_option user_total_points (users db0 1) = Some 0
   \<and> map_option user_total_points (users (fst (finish_match db0 10 result0 True 1000)) 1) = Some 0"
proof -
  have "snd (finish_match db0 10 result0 True 1000) = Inr (match_after0, 1)" by code_simp
  moreover have "map points (predictions (fst (finish_match db0 10 result0 True 1000))) = [Some 3]"
    by code_simp
  moreover have "map_option user_total_points (users db0 1) = Some 0" by code_simp
  moreover have "map_option user_total_points
      (users (fst (finish_match db0 10 result0 True 1000)) 1) = Some 0"
    by code_simp
  ultimately show ?thesis using finish_match_users by blast
qed


subsection \<open>A second prediction for the same user and match\<close>

lemma find_append_not:
  "\<not> P x \<Longrightarrow> find P (xs @ [x]) = find P xs"
  by (induction xs) simp_all

lemma created_prediction_not_found:
  "get_by_user_and_match (fst (repo_create_prediction db uid mid home away new_id now)) u m
     = get_by_user_and_match db u m"
proof -
  have "predictions (fst (repo_create_prediction db uid mid home away new_id now)) = predictions db
      \<or> (\<exists>doc. ids_as_str doc
            \<and> predictions (fst (repo_create_prediction db uid mid home away new_id now))
                = predictions db @ [doc])"
    by (auto simp add: repo_create_prediction_def model_dump_def Let_def split: sum.splits)
  then show ?thesis
    by (auto simp add: get_by_user_and_match_def find_append_not)
qed

text \<open>
  C4. The document that \<^verbatim>\<open>create_prediction\<close> stores holds its user and its match as
  strings, and the duplicate check looks for ObjectIds: for every database the lookup
  finds after the insert what it found before. So user 1 predicts match 10 twice. Without
  the unique index both documents are stored and the match counts 2 (each call ends in
  the AttributeError of \<^verbatim>\<open>increment_stats\<close>, after the insert and the count); with the
  index the second insert raises the driver's DuplicateKeyError. Neither call raises the
  duplicate-prediction error.
\<close>

theorem create_prediction_twice:
  "get_by_user_and_match (fst (repo_create_prediction db uid mid home away new_id now)) u m
     = get_by_user_and_match db u m
   \<and> map stored_refs (predictions (run_operations [hd create_twice] db_open_no_index))
       = [(1, 10, True)]
   \<and> get_by_user_and_match (run_operations [hd create_twice] db_open_no_index) 1 10 = Inr None
   \<and> map stored_refs (predictions (run_operations create_twice db_open_no_index))
       = [(1, 10, True), (1, 10, True)]
   \<and> prediction_counter (run_operations create_twice db_open_no_index) 10 = Some 2
   \<and> snd (create_prediction (run_operations [hd create_twice] db_open_no_index) 1 10 3 0 102 1001)
       = Inl AttributeError
   \<and> map stored_refs (predictions (run_operations create_twice db_open)) = [(1, 10, True)]
   \<and> prediction_counter (run_operations create_twice db_open) 10 = Some 1
   \<and> snd (create_prediction (run_operations [hd create_twice] db_open) 1 10 3 0 102 1001)
       = Inl DuplicateKeyError"
proof -
  have "map stored_refs (predictions (run_operations [hd create_twice] db_open_no_index))
       = [(1, 10, True)]"
    by code_simp
  moreover have "get_by_user_and_match (run_operations [hd create_twice] db_open_no_index) 1 10
      = Inr None"
    by code_simp
  moreover have "map stored_refs (predictions (run_operations create_twice db_open_no_index))
       = [(1, 10, True), (1, 10, True)]"
    by code_simp
  moreover have "prediction_counter (run_operations create_twice db_open_no_index) 10 = Some 2"
    by code_simp
  moreover have "snd (create_prediction (run_operations [hd create_twice] db_open_no_index)
      1 10 3 0 102 1001) = Inl AttributeError"
    by code_simp
  moreover have "map stored_refs (predictions (run_operations create_twice db_open))
      = [(1, 10, True)]"
    by code_simp
  moreover have "prediction_counter (run_operations create_twice db_open) 10 = Some 1"
    by code_simp
  moreover have "snd (create_prediction (run_operations [hd create_twice] db_open)
      1 10 3 0 102 1001) = Inl DuplicateKeyError"
    by code_simp
  ultimately show ?thesis using created_prediction_not_found by blast
qed

subsection \<open>The prediction counter of a match\<close>

lemma counter_find_one_and_update:
  assumes "\<And>d. total_predictions (f d) = total_predictions d"
  shows "prediction_counter (fst (match_find_one_and_update db i f now)) j = prediction_counter db j"
  using assms
  by (cases "matches db i")
     (simp_all add: match_find_one_and_update_def prediction_counter_def)

lemma counter_update_one:
  "prediction_counter (fst (match_update_one db i cond f)) j =
     (if j = i then
        (case matches db i of
           None \<Rightarrow> None
         | Some d \<Rightarrow> Some (total_predictions (if cond d then f d else d)))
      else prediction_counter db j)"
  by (cases "matches db i")
     (simp_all add: match_update_one_def prediction_counter_def)

lemma counter_set_result:
  "prediction_counter (fst (set_result db i result now)) j = prediction_counter db j"
  unfolding set_result_def Let_def by (rule counter_find_one_and_update) simp

lemma counter_repo_start:
  "prediction_counter (fst (repo_start_match db i now)) j = prediction_counter db j"
  unfolding repo_start_match_def by (rule counter_find_one_and_update) simp

lemma counter_repo_cancel:
  "prediction_counter (fst (repo_cancel_match db i reason now)) j = prediction_counter db j"
  unfolding repo_cancel_match_def
  by (rule counter_find_one_and_update) (simp split: option.split)

lemma counter_repo_postpone:
  "prediction_counter (fst (repo_postpone_match db i t now)) j = prediction_counter db j"
  unfolding repo_postpone_match_def
  by (rule counter_find_one_and_update) (simp split: option.split)

lemma total_predictions_set_opt:
  assumes "\<And>x d. total_predictions (f x d) = total_predictions d"
  shows "total_predictions (set_opt v f d) = total_predictions d"
  using assms by (cases v) (simp_all add: set_opt_def)

lemma total_predictions_apply_match_update:
  "total_predictions (apply_match_update data d) = total_predictions d"
  unfolding apply_match_update_def
  by (simp add: total_predictions_set_opt)

lemma counter_get_by_id_unchanged:
  "prediction_counter (fst (db, r)) j = prediction_counter db j"
  by simp

lemma counter_update_by_id:
  "prediction_counter (fst (match_update_by_id db i data now)) j = prediction_counter db j"
proof (cases "match_update_empty data")
  case True
  then show ?thesis by (simp add: match_update_by_id_def)
next
  case False
  have "prediction_counter
          (fst (match_find_one_and_update db i
                  (\<lambda>doc. (apply_match_update data doc)\<lparr>match_updated_at := Some now\<rparr>) now)) j
        = prediction_counter db j"
    by (rule counter_find_one_and_update) (simp add: total_predictions_apply_match_update)
  with False show ?thesis by (simp add: match_update_by_id_def)
qed

lemma counter_lock_all:
  "prediction_counter (lock_all_starting_soon db n now) j = prediction_counter db j"
  by (cases "matches db j")
     (simp_all add: lock_all_starting_soon_def prediction_counter_def Let_def)

lemma counter_repo_create_match:
  "prediction_counter (fst (repo_create_match db data new_id now)) j =
     (if j = new_id \<and> matches db new_id = None then Some 0 else prediction_counter db j)"
  by (simp add: repo_create_match_def prediction_counter_def Let_def)

lemma fst_found_or_raise: "fst (found_or_raise r) = fst r"
  by (cases r) (simp add: found_or_raise_def split: sum.split option.split)

lemma counter_create_match:
  "prediction_counter (fst (create_match db data new_id now)) j = prediction_counter db j
   \<or> (prediction_counter db j = None
      \<and> prediction_counter (fst (create_match db data new_id now)) j = Some 0)"
  using counter_repo_create_match [of db data new_id now j]
  by (cases "matches db new_id") (auto simp add: create_match_def prediction_counter_def)

lemma update_match_fst:
  "fst (update_match db i data now) = db
   \<or> fst (update_match db i data now) = fst (match_update_by_id db i data now)"
proof (cases "match_update_by_id db i data now")
  case (Pair db1 res)
  show ?thesis
  proof (cases res)
    case (Inl e)
    with Pair show ?thesis by (simp add: update_match_def split: sum.split)
  next
    case (Inr o1)
    with Pair show ?thesis by (cases o1) (simp_all add: update_match_def split: sum.split)
  qed
qed

lemma counter_update_match:
  "prediction_counter (fst (update_match db i data now)) j = prediction_counter db j"
  using update_match_fst [of db i data now] counter_update_by_id [of db i data now j]
  by auto

lemma counter_reschedule_match:
  "prediction_counter (fst (reschedule_match db i t now)) j = prediction_counter db j"
  by (simp add: reschedule_match_def counter_update_match split: sum.split)

lemma counter_start_match:
  "prediction_counter (fst (start_match db i now)) j = prediction_counter db j"
  by (simp add: start_match_def fst_found_or_raise counter_repo_start split: sum.split)

lemma counter_cancel_match:
  "prediction_counter (fst (cancel_match db i reason now)) j = prediction_counter db j"
  by (simp add: cancel_match_def fst_found_or_raise counter_repo_cancel split: sum.split)

lemma counter_postpone_match:
  "prediction_counter (fst (postpone_match db i t now)) j = prediction_counter db j"
  by (simp add: postpone_match_def fst_found_or_raise counter_repo_postpone split: sum.split)

lemma counter_lock_predictions:
  "prediction_counter (fst (lock_predictions db i now)) j = prediction_counter db j"
proof -
  have "prediction_counter (fst (repo_lock_predictions db i now)) j = prediction_counter db j"
    unfolding repo_lock_predictions_def counter_update_one
    by (cases "matches db i") (simp_all add: prediction_counter_def)
  then show ?thesis by (cases "repo_lock_predictions db i now") (simp add: lock_predictions_def)
qed

lemma counter_unlock_predictions:
  "prediction_counter (fst (unlock_predictions db i now)) j = prediction_counter db j"
proof -
  have "prediction_counter (fst (repo_unlock_predictions db i now)) j = prediction_counter db j"
    unfolding repo_unlock_predictions_def counter_update_one
    by (cases "matches db i") (simp_all add: prediction_counter_def)
  then show ?thesis
    by (cases "repo_unlock_predictions db i now")
       (simp add: unlock_predictions_def split: sum.split)
qed

lemma counter_increment:
  "prediction_counter (fst (increment_prediction_count db i)) j =
     (if j = i then map_option (\<lambda>c. c + 1) (prediction_counter db i) else prediction_counter db j)"
  unfolding increment_prediction_count_def counter_update_one
  by (cases "matches db i") (simp_all add: prediction_counter_def)

lemma counter_decrement:
  "prediction_counter (fst (decrement_prediction_count db i)) j =
     (if j = i then map_option (\<lambda>c. if 0 < c then c - 1 else c) (prediction_counter db i)
      else prediction_counter db j)"
  unfolding decrement_prediction_count_def counter_update_one
  by (cases "matches db i") (simp_all add: prediction_counter_def)

lemma fst_increment_stats: "fst (increment_stats db i pd ptd now) = db"
  by (simp add: increment_stats_def user_update_by_id_def)

lemma counter_score_pass:
  "prediction_counter (fst (score_predictions_for_match db mid h a now)) j = prediction_counter db j"
  by (simp add: prediction_counter_def score_pass_matches)

lemma counter_predictions_update:
  "prediction_counter (db\<lparr>predictions := ps\<rparr>) j = prediction_counter db j"
  by (simp add: prediction_counter_def)

lemma finish_match_fst:
  "fst (finish_match db i result sp now) = db
   \<or> fst (finish_match db i result sp now) = fst (set_result db i result now)
   \<or> fst (finish_match db i result sp now)
       = fst (score_predictions_for_match (fst (set_result db i result now)) i
               (result_home_score result) (result_away_score result) now)"
proof (cases "get_match db i now")
  case (Inl e)
  then show ?thesis by (simp add: finish_match_def)
next
  case (Inr m0)
  note g = this
  show ?thesis
  proof (cases "status m0 = FINISHED \<or> status m0 = CANCELLED")
    case True
    with g show ?thesis by (auto simp add: finish_match_def)
  next
    case False
    obtain dbs res where s: "set_result db i result now = (dbs, res)"
      by (cases "set_result db i result now") simp
    obtain db2 res2 where s2: "score_predictions_for_match dbs i (result_home_score result)
        (result_away_score result) now = (db2, res2)"
      by (cases "score_predictions_for_match dbs i (result_home_score result)
        (result_away_score result) now") simp
    show ?thesis
    proof (cases res)
      case (Inl e)
      with g False s show ?thesis by (simp add: finish_match_def)
    next
      case (Inr o1)
      note r = this
      show ?thesis
      proof (cases o1)
        case None
        with g r False s show ?thesis by (simp add: finish_match_def)
      next
        case (Some u)
        with g r False s s2 show ?thesis
          by (cases res2; cases sp) (simp_all add: finish_match_def)
      qed
    qed
  qed
qed

lemma counter_finish_match:
  "prediction_counter (fst (finish_match db i result sp now)) j = prediction_counter db j"
  using finish_match_fst [of db i result sp now]
  by (auto simp add: counter_set_result counter_score_pass)

lemma counter_repo_create_prediction:
  "prediction_counter (fst (repo_create_prediction db uid mid home away new_id now)) j
     = prediction_counter db j"
  by (simp add: repo_create_prediction_def Let_def prediction_counter_def split: sum.split)

lemma create_prediction_fst:
  "fst (create_prediction db uid mid home away new_id now) = db
   \<or> fst (create_prediction db uid mid home away new_id now)
       = fst (repo_create_prediction db uid mid home away new_id now)
   \<or> fst (create_prediction db uid mid home away new_id now)
       = fst (increment_prediction_count
               (fst (repo_create_prediction db uid mid home away new_id now)) mid)"
proof (cases "repo_create_prediction db uid mid home away new_id now")
  case (Pair db1 res)
  show ?thesis
  proof (cases res)
    case (Inl e)
    with Pair show ?thesis
      by (simp add: create_prediction_def split: option.split sum.split)
  next
    case (Inr p)
    have "fst (case increment_stats d uid 1 0 now of
                 (db3, Inl e) \<Rightarrow> (db3, Inl e)
               | (db3, Inr u1) \<Rightarrow> (db3, Inr p)) = d" for d
      by (simp add: increment_stats_def user_update_by_id_def)
    with Pair Inr show ?thesis
      by (simp add: create_prediction_def Let_def split: option.split sum.split)
  qed
qed

lemma counter_create_prediction:
  "prediction_counter (fst (create_prediction db uid mid home away new_id now)) j
     = prediction_counter db j
   \<or> prediction_counter (fst (create_prediction db uid mid home away new_id now)) j
     = map_option (\<lambda>c. c + 1) (prediction_counter db j)"
  using create_prediction_fst [of db uid mid home away new_id now]
  by (auto simp add: counter_increment counter_repo_create_prediction)

lemma counter_prediction_delete_by_id:
  "prediction_counter (fst (prediction_delete_by_id db pid)) j = prediction_counter db j"
  by (simp add: prediction_delete_by_id_def prediction_counter_def)

lemma delete_prediction_fst:
  "fst (delete_prediction db pid uid now) = db
   \<or> fst (delete_prediction db pid uid now) = fst (prediction_delete_by_id db pid)
   \<or> (\<exists>mid. fst (delete_prediction db pid uid now)
       = fst (decrement_prediction_count (fst (prediction_delete_by_id db pid)) mid))"
proof (cases "prediction_find_by_id db pid")
  case (Inl e)
  then show ?thesis by (simp add: delete_prediction_def)
next
  case (Inr o1)
  note f = this
  show ?thesis
  proof (cases o1)
    case None
    with f show ?thesis by (simp add: delete_prediction_def)
  next
    case (Some p)
    obtain db1 deleted where d: "prediction_delete_by_id db pid = (db1, deleted)"
      by (cases "prediction_delete_by_id db pid") simp
    have "fst (case increment_stats d uid (- 1) 0 now of
                 (db3, Inl e) \<Rightarrow> (db3, Inl e)
               | (db3, Inr u1) \<Rightarrow> (db3, Inr b)) = d" for d and b :: bool
      by (simp add: increment_stats_def user_update_by_id_def)
    with d f Some show ?thesis
      by (cases deleted) (auto simp add: delete_prediction_def Let_def)
  qed
qed

lemma counter_delete_prediction:
  "prediction_counter (fst (delete_prediction db pid uid now)) j = prediction_counter db j
   \<or> prediction_counter (fst (delete_prediction db pid uid now)) j
     = map_option (\<lambda>c. if 0 < c then c - 1 else c) (prediction_counter db j)"
  using delete_prediction_fst [of db pid uid now]
  by (auto simp add: counter_decrement counter_prediction_delete_by_id)

lemma counter_step_same: "counter_step dec c c"
  by (cases c) (simp_all add: counter_step_def)

lemma counter_step_apply:
  "counter_step (is_decrement op) (prediction_counter db j)
     (prediction_counter (apply_operation now op db) j)"
proof (cases op)
  case (CreateMatch data new_id)
  with counter_create_match [of db data new_id now j] show ?thesis
    by (auto simp add: counter_step_def split: option.split)
next
  case (UpdateMatch i data)
  then show ?thesis by (simp add: counter_update_match counter_step_same)
next
  case (RescheduleMatch i t)
  then show ?thesis by (simp add: counter_reschedule_match counter_step_same)
next
  case (StartMatch i)
  then show ?thesis by (simp add: counter_start_match counter_step_same)
next
  case (FinishMatch i result sp)
  then show ?thesis by (simp add: counter_finish_match counter_step_same)
next
  case (CancelMatch i reason)
  then show ?thesis by (simp add: counter_cancel_match counter_step_same)
next
  case (PostponeMatch i t)
  then show ?thesis by (simp add: counter_postpone_match counter_step_same)
next
  case (LockPredictions i)
  then show ?thesis by (simp add: counter_lock_predictions counter_step_same)
next
  case (UnlockPredictions i)
  then show ?thesis by (simp add: counter_unlock_predictions counter_step_same)
next
  case (AutoLockStartingMatches n)
  then show ?thesis
    by (simp add: auto_lock_starting_matches_def counter_lock_all counter_step_same)
next
  case (CreatePrediction uid mid home away new_id)
  with counter_create_prediction [of db uid mid home away new_id now j] show ?thesis
    by (cases "prediction_counter db j") (auto simp add: counter_step_def)
next
  case (DeletePrediction pid uid)
  with counter_delete_prediction [of db pid uid now j] show ?thesis
    by (cases "prediction_counter db j") (auto simp add: counter_step_def split: if_splits)
next
  case (IncrementPredictionCount i)
  then show ?thesis
    by (cases "prediction_counter db j") (auto simp add: counter_increment counter_step_def)
next
  case (DecrementPredictionCount i)
  then show ?thesis
    by (cases "prediction_counter db j")
       (auto simp add: counter_decrement counter_step_def split: if_splits)
qed

lemma counter_step_ok:
  assumes "counter_step dec (prediction_counter db j) (prediction_counter db' j)"
    and "counter_ok db j"
  shows "counter_ok db' j"
  using assms
  by (cases "prediction_counter db j") (auto simp add: counter_step_def counter_ok_def)

lemma counter_ok_apply: "counter_ok db j \<Longrightarrow> counter_ok (apply_operation now op db) j"
  using counter_step_apply counter_step_ok by blast

lemma counter_ok_run: "counter_ok db j \<Longrightarrow> counter_ok (run_operations ops db) j"
proof (induction ops arbitrary: db)
  case Nil
  then show ?case by simp
next
  case (Cons x ops)
  obtain now op where x: "x = (now, op)" by (cases x) simp
  from Cons.prems have "counter_ok (apply_operation now op db) j" by (rule counter_ok_apply)
  then show ?case unfolding x using Cons.IH by simp
qed

text \<open>
  C9. A match's prediction counter that is non-negative stays non-negative under every
  operation and every sequence of operations. The decrement applies only to a strictly
  positive counter (otherwise it leaves the counter as it is), so do the deletions of
  predictions, which use it; every other operation leaves the counter of an existing
  match unchanged or adds one to it, and a match that comes into existence starts at 0.
\<close>

theorem prediction_counter_never_negative:
  "(counter_ok db j \<longrightarrow>
      counter_ok (apply_operation now op db) j \<and> counter_ok (run_operations ops db) j)
   \<and> counter_step (is_decrement op) (prediction_counter db j)
        (prediction_counter (apply_operation now op db) j)
   \<and> prediction_counter (fst (decrement_prediction_count db j)) j
        = map_option (\<lambda>c. if 0 < c then c - 1 else c) (prediction_counter db j)
   \<and> prediction_counter (fst (increment_prediction_count db j)) j
        = map_option (\<lambda>c. c + 1) (prediction_counter db j)"
  using counter_ok_apply [of db j now op] counter_ok_run [of db j ops]
    counter_step_apply [of op db j now]
  by (simp add: counter_decrement counter_increment)

theorem prediction_counter_never_negative_witness:
  "counter_ok db_zero 10
   \<and> prediction_counter (apply_operation 1000 (DecrementPredictionCount 10) db_zero) 10 = Some 0
   \<and> prediction_counter
        (run_operations [(1000, DeletePrediction 100 1), (1001, DecrementPredictionCount 10),
           (1002, DeletePrediction 100 1)] db_zero) 10 = Some 0
   \<and> prediction_counter (apply_operation 1000 (DeletePrediction 100 1) db0) 10 = Some 0
   \<and> prediction_counter
        (apply_operation 1000 (CreatePrediction 1 10 2 1 101) (db_zero\<lparr>predictions := []\<rparr>)) 10
        = Some 1
   \<and> prediction_counter (apply_operation 1000 (IncrementPredictionCount 10) db_zero) 10 = Some 1"
proof -
  have ok: "counter_ok db_zero 10" by code_simp
  from prediction_counter_never_negative [of db_zero 10 1000 "DecrementPredictionCount 10"
      "[(1000, DeletePrediction 100 1), (1001, DecrementPredictionCount 10),
           (1002, DeletePrediction 100 1)]"] ok
  have "counter_ok (apply_operation 1000 (DecrementPredictionCount 10) db_zero) 10"
    and "counter_ok (run_operations [(1000, DeletePrediction 100 1),
           (1001, DecrementPredictionCount 10), (1002, DeletePrediction 100 1)] db_zero) 10"
    by simp_all
  moreover have "prediction_counter (apply_operation 1000 (DecrementPredictionCount 10) db_zero) 10
      = Some 0"
    by code_simp
  moreover have "prediction_counter
        (run_operations [(1000, DeletePrediction 100 1), (1001, DecrementPredictionCount 10),
           (1002, DeletePrediction 100 1)] db_zero) 10 = Some 0"
    by code_simp
  moreover have "prediction_counter (apply_operation 1000 (DeletePrediction 100 1) db0) 10 = Some 0"
    by code_simp
  moreover have "prediction_counter
      (apply_operation 1000 (CreatePrediction 1 10 2 1 101) (db_zero\<lparr>predictions := []\<rparr>)) 10
      = Some 1"
    by code_simp
  moreover have "prediction_counter
      (apply_operation 1000 (IncrementPredictionCount 10) db_zero) 10 = Some 1"
    by code_simp
  ultimately show ?thesis using ok by simp
qed

subsection \<open>The leaderboard\<close>










end
